theory Spec2Isabelle
  imports Main "HOL-Library.Word" "HOL-Library.Sublist"
begin

section \<open>Strings, errors and messages\<close>

text \<open>
  A JavaScript string is a sequence of UTF-16 code units: \<open>length\<close>, \<open>substring\<close> and the
  regular-expression atom \<open>.\<close> (without the \<open>u\<close> flag) all work on code units. ASCII literals
  are written \<open>asc ''...''\<close>; other characters are given by their code unit.
\<close>

type_synonym code_unit = "16 word"
type_synonym jstring = "code_unit list"

abbreviation asc :: "string \<Rightarrow> jstring" where
  "asc s \<equiv> map of_char s"

text \<open>A thrown value: the constructor is the error class, the argument its \<open>message\<close>.\<close>

datatype error =
    Error (message: jstring)
  | TypeError (message: jstring)
  | GraphRecursionError (message: jstring)

record tool_call =
  tc_name :: jstring
  tc_args :: jstring
  tc_id :: jstring

datatype content_part =
    ImageUrlPart jstring jstring
  | TextPart jstring

datatype content =
    Text jstring
  | Parts "content_part list"

text \<open>
  Chat messages. Only an \<open>AIMessage\<close> has the field \<open>tool_calls\<close> (which may be undefined);
  reading \<open>tool_calls\<close> of any other message gives \<open>undefined\<close>, here \<open>None\<close>.
\<close>

datatype message =
    SystemMessage content
  | HumanMessage content
  | AIMessage content "tool_call list option"
  | ToolMessage content jstring

fun tool_calls :: "message \<Rightarrow> tool_call list option" where
  "tool_calls (AIMessage c tcs) = tcs"
| "tool_calls _ = None"

fun is_AIMessage :: "message \<Rightarrow> bool" where
  "is_AIMessage (AIMessage c tcs) = True"
| "is_AIMessage _ = False"

section \<open>The agent skill (agent.ts)\<close>

subsection \<open>The conditional edge after the llm node\<close>

datatype node = LLM | TOOLS | END

text \<open>
  The arrow function given to \<open>addConditionalEdges('llm', ...)\<close>:
  \<^verbatim>\<open>
  const lastMessage = graphState.messages[graphState.messages.length - 1];
  const aiMessage = lastMessage as AIMessage;
  if (aiMessage.tool_calls && aiMessage.tool_calls.length > 0) return 'tools';
  return END;
  \<close>
  On an empty message list \<open>lastMessage\<close> is undefined and reading its \<open>tool_calls\<close>
  throws a TypeError.
\<close>

definition conditionalEdge :: "message list \<Rightarrow> error + node" where
  "conditionalEdge messages =
     (if messages = [] then Inl (TypeError (asc ''Cannot read properties of undefined''))
      else (case tool_calls (last messages) of
              None \<Rightarrow> Inr END
            | Some tcs \<Rightarrow> if length tcs > 0 then Inr TOOLS else Inr END))"

subsection \<open>Data of the preprocessing\<close>

text \<open>
  Modelled from the spec: the declaration of \<open>Source\<close> (package openapi-schema) is not part
  of the source; section 3 of the specification gives it as a normalized record of retrieved
  content: URL, title, extracted text.
\<close>

record source =
  src_url :: jstring
  src_title :: jstring
  src_pageContent :: jstring

record graph_state =
  gs_messages :: "message list option"
  gs_images :: "jstring list option"
  gs_query :: "jstring option"

record project =
  projectId :: "jstring option"
  customInstructions :: "jstring option"

record runtime_config =
  enabledKnowledgeBase :: "bool option"

record url_item =
  item_url :: jstring

text \<open>\<open>config.configurable\<close>; the type \<open>'m\<close> is that of \<open>modelConfigMap.chat\<close>.\<close>

record 'm configurable =
  cfg_locale :: "jstring option"
  cfg_modelConfigMap_chat :: 'm
  cfg_project :: "project option"
  cfg_runtimeConfig :: "runtime_config option"
  cfg_urls :: "url_item list option"

text \<open>What \<open>processQuery\<close> returns; \<open>'c\<close> is the type of the mentioned context.\<close>

record 'c processed_query =
  pq_optimizedQuery :: jstring
  pq_query :: jstring
  pq_usedChatHistory :: "message list"
  pq_hasContext :: bool
  pq_remainingTokens :: int
  pq_mentionedContext :: 'c
  pq_rewrittenQueries :: "jstring list"

text \<open>
  The arguments of \<open>prepareContext\<close>. Of its second argument only the entry
  \<open>enableKnowledgeBaseSearch.value\<close> that \<open>commonPreprocess\<close> computes is kept; config, state
  and the other entries of \<open>tplConfig\<close> are passed through unchanged.
\<close>

record 'c prepare_args =
  pa_query :: jstring
  pa_mentionedContext :: 'c
  pa_maxTokens :: int
  pa_enableMentionedContext :: bool
  pa_rewrittenQueries :: "jstring list"
  pa_urlSources :: "source list"
  pa_enableKnowledgeBaseSearch :: bool

record prepared =
  contextStr :: jstring
  sources :: "source list"

text \<open>The arguments of \<open>buildFinalRequestMessages\<close> (the prompt module is a fixed value).\<close>

record 'm build_args =
  ba_locale :: jstring
  ba_chatHistory :: "message list"
  ba_messages :: "message list"
  ba_needPrepareContext :: bool
  ba_context :: jstring
  ba_images :: "jstring list"
  ba_originalQuery :: jstring
  ba_optimizedQuery :: jstring
  ba_rewrittenQueries :: "jstring list"
  ba_modelInfo :: 'm
  ba_customInstructions :: "jstring option"

record mcp_tool =
  tool_name :: jstring

text \<open>
  The collaborators of the skill that are imported from elsewhere: each is a parameter.
  An awaited call that may reject returns \<open>error + result\<close>. \<open>chatModel tools\<close> is
  \<open>this.engine.chatModel({temperature: 0.1}).bindTools(tools).invoke\<close>, and \<open>toolNode tools\<close>
  is \<open>new ToolNode(tools)\<close> applied to the message list: it returns the messages to append.
\<close>

record ('c, 'm) agent_env =
  processQuery :: "graph_state \<Rightarrow> error + 'c processed_query"
  isValidUrl :: "jstring \<Rightarrow> bool"
  crawlExtractedUrls :: "jstring list \<Rightarrow> error + source list"
  extractAndCrawlUrls :: "jstring \<Rightarrow> error + source list"
  checkModelContextLenSupport :: "'m \<Rightarrow> bool"
  prepareContext :: "'c prepare_args \<Rightarrow> error + prepared"
  buildFinalRequestMessages :: "'m build_args \<Rightarrow> message list"
  truncateSource :: "source list \<Rightarrow> source list"
  listMcpServers :: "error + jstring list"
  initializeConnections :: "error + unit"
  getTools :: "error + mcp_tool list option"
  chatModel :: "mcp_tool list \<Rightarrow> message list \<Rightarrow> error + message"
  toolNode :: "mcp_tool list \<Rightarrow> message list \<Rightarrow> error + message list"

text \<open>
  The observable effects of one run, in the order they happen: the changes of
  \<open>config.metadata.step\<close>, the calls to the collaborators, the life cycle of the MCP client,
  and each execution of a node of the workflow (\<open>RunNode\<close>). Calls to the logger are left out.
\<close>

datatype ('c, 'm) effect =
    SetStep jstring
  | CallProcessQuery
  | CallCrawlExtractedUrls "jstring list"
  | CallExtractAndCrawlUrls jstring
  | CallPrepareContext "'c prepare_args"
  | CallBuildFinalRequestMessages "'m build_args"
  | EmitLargeDataEvent "source list"
  | CallListMcpServers
  | NewMultiServerMCPClient
  | CallInitializeConnections
  | CallGetTools
  | BindTools "mcp_tool list"
  | WorkflowInvoke "message list"
  | RunNode node
  | ClientClose

fun is_CallPrepareContext :: "('c, 'm) effect \<Rightarrow> bool" where
  "is_CallPrepareContext (CallPrepareContext a) = True"
| "is_CallPrepareContext _ = False"

fun is_RunNode :: "('c, 'm) effect \<Rightarrow> bool" where
  "is_RunNode (RunNode n) = True"
| "is_RunNode _ = False"

text \<open>JavaScript truthiness of an optional string and of an optional boolean.\<close>

fun truthy_string :: "jstring option \<Rightarrow> bool" where
  "truthy_string None = False"
| "truthy_string (Some s) = (s \<noteq> [])"

fun truthy_bool :: "bool option \<Rightarrow> bool" where
  "truthy_bool None = False"
| "truthy_bool (Some b) = b"

subsection \<open>commonPreprocess\<close>

definition commonPreprocess ::
  "('c, 'm) agent_env \<Rightarrow> graph_state \<Rightarrow> 'm configurable \<Rightarrow> jstring option
     \<Rightarrow> (error + message list \<times> source list) \<times> ('c, 'm) effect list" where
  "commonPreprocess env state config customInstr =
    (let messages = (case gs_messages state of None \<Rightarrow> [] | Some ms \<Rightarrow> ms);
         images = (case gs_images state of None \<Rightarrow> [] | Some im \<Rightarrow> im);
         locale = (case cfg_locale config of None \<Rightarrow> asc ''en'' | Some l \<Rightarrow> l);
         t1 = [SetStep (asc ''analyzeQuery''), CallProcessQuery]
     in case processQuery env state of
          Inl e \<Rightarrow> (Inl e, t1)
        | Inr pq \<Rightarrow>
           (let pid = (case cfg_project config of None \<Rightarrow> None | Some p \<Rightarrow> projectId p);
                enableKnowledgeBaseSearch =
                  (truthy_string pid \<and>
                   truthy_bool (case cfg_runtimeConfig config of None \<Rightarrow> None
                                | Some r \<Rightarrow> enabledKnowledgeBase r));
                contextUrls = (case cfg_urls config of None \<Rightarrow> [] | Some us \<Rightarrow> us);
                urls = filter (\<lambda>u. u \<noteq> [] \<and> isValidUrl env u) (map item_url contextUrls);
                crawlContext = (length contextUrls > 0 \<and> length urls > 0);
                t2 = t1 @ (if crawlContext then [CallCrawlExtractedUrls urls] else [])
            in case (if crawlContext then crawlExtractedUrls env urls else Inr []) of
                 Inl e \<Rightarrow> (Inl e, t2)
               | Inr contextUrlSources \<Rightarrow>
                  (let t3 = t2 @ [CallExtractAndCrawlUrls (pq_query pq)]
                   in case extractAndCrawlUrls env (pq_query pq) of
                        Inl e \<Rightarrow> (Inl e, t3)
                      | Inr queryUrlSources \<Rightarrow>
                         (let urlSources = contextUrlSources @ queryUrlSources;
                              hasUrlSources = (length urlSources > 0);
                              needPrepareContext =
                                ((pq_hasContext pq \<or> hasUrlSources \<or> enableKnowledgeBaseSearch)
                                 \<and> pq_remainingTokens pq > 0);
                              isModelContextLenSupport =
                                checkModelContextLenSupport env (cfg_modelConfigMap_chat config);
                              pargs = \<lparr> pa_query = pq_optimizedQuery pq,
                                        pa_mentionedContext = pq_mentionedContext pq,
                                        pa_maxTokens = pq_remainingTokens pq,
                                        pa_enableMentionedContext = pq_hasContext pq,
                                        pa_rewrittenQueries = pq_rewrittenQueries pq,
                                        pa_urlSources = urlSources,
                                        pa_enableKnowledgeBaseSearch = enableKnowledgeBaseSearch \<rparr>;
                              t4 = t3 @ (if needPrepareContext
                                         then [SetStep (asc ''analyzeContext''), CallPrepareContext pargs]
                                         else [])
                          in case (if needPrepareContext
                                   then (case prepareContext env pargs of
                                           Inl e \<Rightarrow> Inl e
                                         | Inr preparedRes \<Rightarrow>
                                             Inr (contextStr preparedRes, sources preparedRes))
                                   else Inr ([], [])) of
                               Inl e \<Rightarrow> (Inl e, t4)
                             | Inr (context, srcs) \<Rightarrow>
                                (let bargs = \<lparr> ba_locale = locale,
                                               ba_chatHistory = pq_usedChatHistory pq,
                                               ba_messages = messages,
                                               ba_needPrepareContext =
                                                 (needPrepareContext \<and> isModelContextLenSupport),
                                               ba_context = context,
                                               ba_images = images,
                                               ba_originalQuery = pq_query pq,
                                               ba_optimizedQuery = pq_optimizedQuery pq,
                                               ba_rewrittenQueries = pq_rewrittenQueries pq,
                                               ba_modelInfo = cfg_modelConfigMap_chat config,
                                               ba_customInstructions = customInstr \<rparr>
                                 in (Inr (buildFinalRequestMessages env bargs, srcs),
                                     t4 @ [CallBuildFinalRequestMessages bargs]))))))"

subsection \<open>setupAgent\<close>

text \<open>
  The client is created after the server list has been fetched; every error raised inside the
  \<open>try\<close> block (connecting, listing the tools, an empty or missing tool list) is replaced by
  \<open>Error('Failed to initialize MCP tools')\<close>. No branch of \<open>setupAgent\<close> closes the client.
\<close>

definition setupAgent ::
  "('c, 'm) agent_env \<Rightarrow> (error + mcp_tool list) \<times> ('c, 'm) effect list" where
  "setupAgent env =
    (case listMcpServers env of
       Inl e \<Rightarrow> (Inl e, [CallListMcpServers])
     | Inr mcpServersResponse \<Rightarrow>
        (let t1 = [CallListMcpServers, NewMultiServerMCPClient, CallInitializeConnections];
             failed = Error (asc ''Failed to initialize MCP tools'')
         in case initializeConnections env of
              Inl e \<Rightarrow> (Inl failed, t1)
            | Inr u \<Rightarrow>
               (case getTools env of
                  Inl e \<Rightarrow> (Inl failed, t1 @ [CallGetTools])
                | Inr None \<Rightarrow> (Inl failed, t1 @ [CallGetTools])
                | Inr (Some mcpTools) \<Rightarrow>
                    if length mcpTools = 0 then (Inl failed, t1 @ [CallGetTools])
                    else (Inr mcpTools, t1 @ [CallGetTools, BindTools mcpTools]))))"

subsection \<open>The workflow of the agent node\<close>

text \<open>A run that has executed node \<open>n\<close> and then went on as \<open>r\<close>.\<close>

definition ran :: "node \<Rightarrow> (error + message list) \<times> node list
                     \<Rightarrow> (error + message list) \<times> node list" where
  "ran n r = (fst r, n # snd r)"

text \<open>
  Modelled from the spec: the state-graph library that compiles and runs the workflow
  (\<open>StateGraph\<close>, \<open>compile\<close>, \<open>invoke\<close> with \<open>recursionLimit\<close>) is not part of the source.
  Section 4.5 of the specification: the states are start, llm, a conditional branch, tools,
  back to llm, and so on, up to end; after each model response the conditional edge decides;
  the tool results are appended to the message history; a step limit bounds the loop, and
  exceeding it is a fatal, surfaced error. Each execution of a node is one step; the nodes
  and edges are those that \<open>agentNode\<close> adds: START to llm, tools to llm, and the
  conditional edge after llm. The run returns its outcome together with the nodes it has
  executed, in order; \<open>k\<close> is the number of steps still allowed.
\<close>

fun invoke ::
  "(message list \<Rightarrow> error + message) \<Rightarrow> (message list \<Rightarrow> error + message list)
     \<Rightarrow> nat \<Rightarrow> node \<Rightarrow> message list \<Rightarrow> (error + message list) \<times> node list" where
  "invoke llmNode toolsNode k END messages = (Inr messages, [])"
| "invoke llmNode toolsNode 0 n messages =
     (Inl (GraphRecursionError (asc ''Recursion limit reached without hitting a stop condition'')),
      [])"
| "invoke llmNode toolsNode (Suc k) LLM messages =
     (case llmNode messages of
        Inl e \<Rightarrow> (Inl e, [LLM])
      | Inr response \<Rightarrow>
         (case conditionalEdge (messages @ [response]) of
            Inl e \<Rightarrow> (Inl e, [LLM])
          | Inr next \<Rightarrow> ran LLM (invoke llmNode toolsNode k next (messages @ [response]))))"
| "invoke llmNode toolsNode (Suc k) TOOLS messages =
     (case toolsNode messages of
        Inl e \<Rightarrow> (Inl e, [TOOLS])
      | Inr toolMessages \<Rightarrow>
          ran TOOLS (invoke llmNode toolsNode k LLM (messages @ toolMessages)))"

text \<open>The first \<open>k\<close> nodes of a run that never reaches END, from node \<open>n\<close> on.\<close>

fun alternate :: "nat \<Rightarrow> node \<Rightarrow> node list" where
  "alternate 0 n = []"
| "alternate (Suc k) n = n # alternate k (if n = LLM then TOOLS else LLM)"

definition recursionLimit :: nat where
  "recursionLimit = 100"

subsection \<open>agentNode\<close>

text \<open>
  \<open>setupAgent\<close> is awaited before the \<open>try\<close> block; \<open>client.close()\<close> is in the \<open>finally\<close>
  clause of that block, which has no \<open>catch\<close>: an error of the workflow leaves \<open>agentNode\<close>
  as it is, after the client has been closed. The effects of the block are the call of
  \<open>app.invoke\<close>, the nodes that the run executes, and the close of the client.
\<close>

text \<open>\<open>project?.projectId ? project?.customInstructions : undefined\<close>\<close>

definition projectCustomInstructions :: "'m configurable \<Rightarrow> jstring option" where
  "projectCustomInstructions config =
     (case cfg_project config of
        None \<Rightarrow> None
      | Some p \<Rightarrow> if truthy_string (projectId p) then customInstructions p else None)"

definition agentNode ::
  "('c, 'm) agent_env \<Rightarrow> graph_state \<Rightarrow> 'm configurable
     \<Rightarrow> (error + message list) \<times> ('c, 'm) effect list" where
  "agentNode env state config =
    (case commonPreprocess env state config (projectCustomInstructions config) of
       (Inl e, t1) \<Rightarrow> (Inl e, t1)
     | (Inr (requestMessages, srcs), t1) \<Rightarrow>
           (let t2 = t1 @ [SetStep (asc ''answerQuestion'')]
                       @ (if length srcs > 0 then [EmitLargeDataEvent (truncateSource env srcs)]
                          else [])
            in case setupAgent env of
                 (Inl e, t3) \<Rightarrow> (Inl e, t2 @ t3)
               | (Inr mcpTools, t3) \<Rightarrow>
                   (case invoke (chatModel env mcpTools) (toolNode env mcpTools)
                           recursionLimit LLM requestMessages of
                      (result, steps) \<Rightarrow>
                        (result,
                         t2 @ t3 @ [WorkflowInvoke requestMessages] @ map RunNode steps
                           @ [ClientClose]))))"

section \<open>The image generation skill\<close>

subsection \<open>The two regular expressions\<close>

text \<open>
  \<open>String.prototype.match\<close> with a regular expression without the \<open>g\<close> flag tries the start
  positions from left to right and, at each, runs the backtracking matcher; the first
  success is the result. The patterns of the skill are sequences of literals and of the lazy
  \<open>.*?\<close>, so the matcher is written in continuation-passing style: \<open>lit p k\<close> matches the
  literal \<open>p\<close> and goes on with \<open>k\<close>; \<open>lazy_dots k\<close> first tries \<open>k\<close> where it stands and, when
  that fails, consumes one more code unit that is not a line terminator and tries again;
  it returns what it consumed together with the result of \<open>k\<close>.
\<close>

definition is_line_terminator :: "code_unit \<Rightarrow> bool" where
  "is_line_terminator c = (c = 0x0A \<or> c = 0x0D \<or> c = 0x2028 \<or> c = 0x2029)"

fun lit :: "jstring \<Rightarrow> (jstring \<Rightarrow> 'a option) \<Rightarrow> jstring \<Rightarrow> 'a option" where
  "lit [] k s = k s"
| "lit (p # ps) k [] = None"
| "lit (p # ps) k (c # cs) = (if p = c then lit ps k cs else None)"

fun lazy_dots :: "(jstring \<Rightarrow> 'a option) \<Rightarrow> jstring \<Rightarrow> (jstring \<times> 'a) option" where
  "lazy_dots k [] = map_option (Pair []) (k [])"
| "lazy_dots k (c # cs) =
     (case k (c # cs) of
        Some r \<Rightarrow> Some ([], r)
      | None \<Rightarrow>
          if is_line_terminator c then None
          else map_option (\<lambda>(d, r). (c # d, r)) (lazy_dots k cs))"

definition accept :: "jstring \<Rightarrow> unit option" where
  "accept s = Some ()"

fun search :: "(jstring \<Rightarrow> 'a option) \<Rightarrow> jstring \<Rightarrow> 'a option" where
  "search m [] = m []"
| "search m (c # cs) = (case m (c # cs) of Some r \<Rightarrow> Some r | None \<Rightarrow> search m cs)"

text \<open>\<^verbatim>\<open>/!\[.*?\]\((https:\/\/.*?)\)/\<close> at one start position, and group 1 of the first match.\<close>

definition url_at :: "jstring \<Rightarrow> (jstring \<times> jstring \<times> unit) option" where
  "url_at = lit (asc ''!['') (lazy_dots (lit (asc '']('') (lit (asc ''https://'')
              (lazy_dots (lit (asc '')'') accept)))))"

definition match_url :: "jstring \<Rightarrow> jstring option" where
  "match_url s = map_option (\<lambda>(d1, d2, u). asc ''https://'' @ d2) (search url_at s)"

text \<open>\<^verbatim>\<open>/gen_id: `(.*?)`/\<close>; the backquote is the code unit 0x60.\<close>

definition gen_at :: "jstring \<Rightarrow> (jstring \<times> unit) option" where
  "gen_at = lit (asc ''gen_id: '' @ [0x60]) (lazy_dots (lit [0x60] accept))"

definition match_gen :: "jstring \<Rightarrow> jstring option" where
  "match_gen s = map_option fst (search gen_at s)"

subsection \<open>Data of the image generation\<close>

record image_generation_state = graph_state +
  gen_id :: "jstring option"

text \<open>\<open>tplConfig\<close>: each field is \<open>tplConfig?.key?.value\<close>, \<open>None\<close> when null or undefined.\<close>

record tpl_config =
  tpl_apiUrl :: "jstring option"
  tpl_apiKey :: "jstring option"
  tpl_imageRatio :: "jstring option"
  tpl_model :: "jstring option"

text \<open>
  The request sent with \<open>fetch\<close>. The body is kept structured: \<open>req_prompt\<close>, \<open>req_ratio\<close> and
  \<open>req_gen_id\<close> are the object \<open>finalConfig\<close> that the source renders as JSON inside the
  single user message.
\<close>

record request =
  req_url :: jstring
  req_authorization :: jstring
  req_stream :: bool
  req_model :: jstring
  req_prompt :: jstring
  req_ratio :: jstring
  req_gen_id :: "jstring option"

text \<open>
  One \<open>reader.read()\<close> that does not end the stream: it yields a value (the text that the
  streaming decoder makes of the bytes; \<open>None\<close> when \<open>result.value\<close> is missing), rejects,
  or stays pending for ever (the stream has stalled). A response body is the list of these
  reads; the read after the last one returns \<open>done = true\<close>.
\<close>

datatype read_result =
    ReadValue "jstring option"
  | ReadRejects error
  | ReadPending

record response =
  resp_ok :: bool
  resp_status :: nat
  resp_text :: "error + jstring"
  resp_body :: "read_result list option"

record artifact_metadata =
  am_url :: jstring
  am_prompt :: jstring
  am_gen_id :: jstring
  am_model :: jstring
  am_ratio :: jstring
  am_mimeType :: jstring

record artifact =
  art_entityId :: jstring
  art_type :: jstring
  art_title :: jstring
  art_content :: jstring
  art_status :: jstring
  art_metadata :: artifact_metadata

text \<open>The metadata of the canvas node; its empty \<open>style\<close> object is left out.\<close>

record node_metadata =
  nm_imageUrl :: jstring
  nm_imageType :: jstring
  nm_storageKey :: jstring
  nm_showBorder :: bool
  nm_showTitle :: bool
  nm_sizeMode :: jstring
  nm_prompt :: jstring
  nm_gen_id :: jstring
  nm_model :: jstring
  nm_ratio :: jstring
  nm_originalWidth :: nat

record canvas_node_data =
  nd_title :: jstring
  nd_entityId :: jstring
  nd_metadata :: node_metadata

record canvas_node =
  cn_type :: jstring
  cn_data :: canvas_node_data

text \<open>The events given to \<open>emitEvent\<close>; a log event has a key and its title arguments.\<close>

datatype event =
    LogEvent jstring "(jstring \<times> jstring) list"
  | ArtifactEvent artifact
  | CreateNodeEvent canvas_node
  | ErrorEvent jstring

datatype image_effect =
    SetMetadataStep jstring
  | EmitEvent event
  | Fetch request
  | ReaderRead

fun is_Fetch :: "image_effect \<Rightarrow> bool" where
  "is_Fetch (Fetch r) = True"
| "is_Fetch _ = False"

fun is_ErrorEvent :: "image_effect \<Rightarrow> bool" where
  "is_ErrorEvent (EmitEvent (ErrorEvent m)) = True"
| "is_ErrorEvent _ = False"

text \<open>The events of a run, in order of emission.\<close>

fun events :: "image_effect list \<Rightarrow> event list" where
  "events [] = []"
| "events (EmitEvent e # t) = e # events t"
| "events (x # t) = events t"

text \<open>
  What the skill takes from outside: the answer of \<open>fetch\<close>, the value of
  \<open>Date.now() - startTime\<close> at the i-th test of the loop condition, \<open>genImageID()\<close>, the
  \<open>Date.now()\<close> of the storage key, and whether the constructor of \<open>AIMessage\<close> throws.
\<close>

record image_env =
  fetch :: "request \<Rightarrow> error + response"
  elapsed :: "nat \<Rightarrow> int"
  genImageID :: jstring
  now :: nat
  aiMessageThrows :: bool

subsection \<open>Reading the stream\<close>

record stream_state =
  imageUrl :: jstring
  genId :: jstring
  fullResponse :: jstring

definition timeout :: int where
  "timeout = 6000000"

text \<open>The body of \<open>if (!done && result.value)\<close> up to the test for \<open>break\<close>.\<close>

definition absorb :: "jstring \<Rightarrow> stream_state \<Rightarrow> stream_state" where
  "absorb chunk st =
     (let full = fullResponse st @ chunk;
          url = (case match_url full of
                   Some u \<Rightarrow> if u \<noteq> [] \<and> imageUrl st = [] then u else imageUrl st
                 | None \<Rightarrow> imageUrl st);
          gid = (case match_gen full of
                   Some g \<Rightarrow> if g \<noteq> [] \<and> genId st = [] then g else genId st
                 | None \<Rightarrow> genId st)
      in \<lparr> imageUrl = url, genId = gid, fullResponse = full \<rparr>)"

text \<open>
  An awaited read that stays pending is never interrupted: the function that awaits it does
  not return. The outcome of a run is therefore optional: \<open>None\<close> says that the run never
  returns, \<open>Some (Inl e)\<close> that it throws \<open>e\<close>, \<open>Some (Inr v)\<close> that it returns \<open>v\<close>. The effects
  are those that have happened, in both cases.
\<close>

definition reading :: "(error + stream_state) option \<times> image_effect list
                         \<Rightarrow> (error + stream_state) option \<times> image_effect list" where
  "reading r = (fst r, ReaderRead # snd r)"

text \<open>
  \<open>while (!done && Date.now() - startTime < timeout)\<close>: \<open>i\<close> counts the tests of the
  condition, the list holds the reads that the stream still has to give. The clock is looked
  at only in the test of the condition, that is between two reads.
\<close>

fun read_loop :: "(nat \<Rightarrow> int) \<Rightarrow> nat \<Rightarrow> stream_state \<Rightarrow> read_result list
                    \<Rightarrow> (error + stream_state) option \<times> image_effect list" where
  "read_loop clock i st [] =
     (if clock i < timeout then (Some (Inr st), [ReaderRead]) else (Some (Inr st), []))"
| "read_loop clock i st (ReadPending # rest) =
     (if clock i < timeout then (None, [ReaderRead]) else (Some (Inr st), []))"
| "read_loop clock i st (ReadRejects e # rest) =
     (if clock i < timeout then (Some (Inl e), [ReaderRead]) else (Some (Inr st), []))"
| "read_loop clock i st (ReadValue None # rest) =
     (if clock i < timeout then reading (read_loop clock (Suc i) st rest)
      else (Some (Inr st), []))"
| "read_loop clock i st (ReadValue (Some chunk) # rest) =
     (if clock i < timeout
      then (if imageUrl (absorb chunk st) \<noteq> [] \<and> genId (absorb chunk st) \<noteq> []
            then (Some (Inr (absorb chunk st)), [ReaderRead])
            else reading (read_loop clock (Suc i) (absorb chunk st) rest))
      else (Some (Inr st), []))"

subsection \<open>generateImage\<close>

text \<open>\<open>${n}\<close> for a number that is a natural: its decimal digits.\<close>

fun show_nat :: "nat \<Rightarrow> jstring" where
  "show_nat n = (if n < 10 then [of_nat (48 + n)]
                 else show_nat (n div 10) @ [of_nat (48 + n mod 10)])"

declare show_nat.simps [simp del]

text \<open>\<open>genId || 'unknown'\<close>\<close>

definition or_unknown :: "jstring \<Rightarrow> jstring" where
  "or_unknown g = (if g = [] then asc ''unknown'' else g)"

text \<open>The messages of the errors that the skill throws itself.\<close>

definition msg_prompt_required :: jstring where
  "msg_prompt_required = asc ''A prompt is required for image generation''"

definition msg_api_key_required :: jstring where
  "msg_api_key_required = asc ''API key is required for image generation''"

definition msg_http_failure :: "nat \<Rightarrow> jstring \<Rightarrow> jstring" where
  "msg_http_failure status errorText =
     [0x56FE, 0x50CF, 0x751F, 0x6210, 0x5931, 0x8D25] @ asc '': '' @ show_nat status
       @ asc '' - '' @ errorText"

definition msg_unreadable_stream :: jstring where
  "msg_unreadable_stream = [0x65E0, 0x6CD5, 0x8BFB, 0x53D6, 0x54CD, 0x5E94, 0x6D41]"

definition msg_no_image_url :: jstring where
  "msg_no_image_url =
     [0x65E0, 0x6CD5, 0x4ECE, 0x54CD, 0x5E94, 0x4E2D, 0x63D0, 0x53D6, 0x56FE, 0x50CF] @ asc ''URL''"

text \<open>The message returned by the outer \<open>catch\<close>.\<close>

definition fallback_message :: "error \<Rightarrow> message" where
  "fallback_message e =
     SystemMessage (Text ([0x56FE, 0x50CF, 0x751F, 0x6210, 0x9519, 0x8BEF] @ asc '': '' @ message e))"

definition imageTitle :: "jstring \<Rightarrow> jstring" where
  "imageTitle query =
     [0x751F, 0x6210, 0x56FE, 0x50CF] @ asc '': '' @ take 30 query
       @ (if length query > 30 then asc ''...'' else [])"

definition aiMessage :: "jstring \<Rightarrow> jstring \<Rightarrow> jstring \<Rightarrow> message" where
  "aiMessage query url gid =
     AIMessage
       (Parts [ImageUrlPart url (asc ''high''),
               TextPart ([0x0A, 0x0A] @ asc ''**'' @ [0x751F, 0x6210, 0x7684, 0x56FE, 0x50CF]
                         @ asc ''**'' @ [0x0A, 0x0A, 0x63D0, 0x793A, 0x8BCD] @ asc '': '' @ query
                         @ [0x0A, 0x0A, 0x56FE, 0x50CF] @ asc ''ID: '' @ or_unknown gid)])
       None"

definition systemMessage :: "jstring \<Rightarrow> jstring \<Rightarrow> jstring \<Rightarrow> message" where
  "systemMessage query url gid =
     SystemMessage
       (Text (asc ''!['' @ imageTitle query @ asc '']('' @ url @ asc '')'' @ [0x0A, 0x0A]
              @ [0x751F, 0x6210, 0x7684, 0x56FE, 0x50CF] @ asc ''ID: '' @ or_unknown gid
              @ [0x0A, 0x0A, 0x63D0, 0x793A, 0x8BCD] @ asc '': '' @ query))"

definition mk_artifact :: "image_env \<Rightarrow> jstring \<Rightarrow> jstring \<Rightarrow> jstring \<Rightarrow> jstring \<Rightarrow> jstring
                             \<Rightarrow> artifact" where
  "mk_artifact env query url gid model ratio =
     \<lparr> art_entityId = genImageID env,
       art_type = asc ''document'',
       art_title = imageTitle query,
       art_content = [],
       art_status = asc ''finish'',
       art_metadata = \<lparr> am_url = url, am_prompt = query, am_gen_id = or_unknown gid,
                        am_model = model, am_ratio = ratio, am_mimeType = asc ''image/png'' \<rparr> \<rparr>"

definition mk_canvasNode :: "image_env \<Rightarrow> jstring \<Rightarrow> jstring \<Rightarrow> jstring \<Rightarrow> jstring \<Rightarrow> jstring
                               \<Rightarrow> canvas_node" where
  "mk_canvasNode env query url gid model ratio =
     \<lparr> cn_type = asc ''image'',
       cn_data =
         \<lparr> nd_title = imageTitle query,
           nd_entityId = genImageID env,
           nd_metadata =
             \<lparr> nm_imageUrl = url, nm_imageType = asc ''png'',
               nm_storageKey = genImageID env @ asc ''-'' @ show_nat (now env),
               nm_showBorder = True, nm_showTitle = True, nm_sizeMode = asc ''adaptive'',
               nm_prompt = query, nm_gen_id = or_unknown gid, nm_model = model,
               nm_ratio = ratio, nm_originalWidth = 400 \<rparr> \<rparr> \<rparr>"

text \<open>The request: \<open>gen_id\<close> is part of it only when it is truthy.\<close>

definition mk_request ::
  "jstring \<Rightarrow> jstring option \<Rightarrow> jstring \<Rightarrow> jstring \<Rightarrow> jstring \<Rightarrow> jstring \<Rightarrow> request" where
  "mk_request query gid_in apiUrl apiKey ratio model =
     \<lparr> req_url = apiUrl,
       req_authorization = asc ''Bearer '' @ apiKey,
       req_stream = True,
       req_model = model,
       req_prompt = query,
       req_ratio = ratio,
       req_gen_id = (case gid_in of None \<Rightarrow> None
                     | Some g \<Rightarrow> if g = [] then None else Some g) \<rparr>"

definition init_stream :: stream_state where
  "init_stream = \<lparr> imageUrl = [], genId = [], fullResponse = [] \<rparr>"

text \<open>The two log events and the request that every run of the \<open>try\<close> block starts with.\<close>

definition request_effects ::
  "jstring \<Rightarrow> jstring option \<Rightarrow> jstring \<Rightarrow> jstring \<Rightarrow> jstring \<Rightarrow> jstring \<Rightarrow> image_effect list" where
  "request_effects query gid_in apiUrl apiKey ratio model =
     [EmitEvent (LogEvent (asc ''image.generating'') [(asc ''prompt'', query)]),
      EmitEvent (LogEvent (asc ''image.api.request'') [(asc ''url'', apiUrl)]),
      Fetch (mk_request query gid_in apiUrl apiKey ratio model)]"

text \<open>
  The body of the outer \<open>try\<close> block; \<open>Some (Inl e)\<close> is what it throws. Of the awaited calls
  only the reads of the stream can stay pending; \<open>fetch\<close> and \<open>response.text()\<close> settle.
\<close>

definition generateImage_try ::
  "image_env \<Rightarrow> jstring \<Rightarrow> jstring option \<Rightarrow> jstring \<Rightarrow> jstring \<Rightarrow> jstring \<Rightarrow> jstring
     \<Rightarrow> (error + message list) option \<times> image_effect list" where
  "generateImage_try env query gid_in apiUrl apiKey ratio model =
    (let t0 = request_effects query gid_in apiUrl apiKey ratio model
     in case fetch env (mk_request query gid_in apiUrl apiKey ratio model) of
          Inl e \<Rightarrow> (Some (Inl e), t0)
        | Inr resp \<Rightarrow>
           if \<not> resp_ok resp
           then (case resp_text resp of
                   Inl e \<Rightarrow> (Some (Inl e), t0)
                 | Inr errorText \<Rightarrow>
                     (Some (Inl (Error (msg_http_failure (resp_status resp) errorText))), t0))
           else (case resp_body resp of
                   None \<Rightarrow> (Some (Inl (Error msg_unreadable_stream)), t0)
                 | Some reads \<Rightarrow>
                    (case read_loop (elapsed env) 0 init_stream reads of
                       (None, tr) \<Rightarrow> (None, t0 @ tr)
                     | (Some (Inl e), tr) \<Rightarrow> (Some (Inl e), t0 @ tr)
                     | (Some (Inr st), tr) \<Rightarrow>
                        if imageUrl st = []
                        then (Some (Inl (Error msg_no_image_url)), t0 @ tr)
                        else
                          (Some (Inr [if aiMessageThrows env
                                      then systemMessage query (imageUrl st) (genId st)
                                      else aiMessage query (imageUrl st) (genId st)]),
                           t0 @ tr @
                           [EmitEvent (ArtifactEvent
                              (mk_artifact env query (imageUrl st) (genId st) model ratio)),
                            EmitEvent (CreateNodeEvent
                              (mk_canvasNode env query (imageUrl st) (genId st) model ratio))]))))"

text \<open>\<open>tplConfig?.key?.value ?? default\<close> for the four options.\<close>

definition apiUrl_of :: "tpl_config option \<Rightarrow> jstring" where
  "apiUrl_of tplConfig =
     (case Option.bind tplConfig tpl_apiUrl of
        None \<Rightarrow> asc ''https://api.tu-zi.com/v1/chat/completions'' | Some v \<Rightarrow> v)"

definition apiKey_of :: "tpl_config option \<Rightarrow> jstring" where
  "apiKey_of tplConfig = (case Option.bind tplConfig tpl_apiKey of None \<Rightarrow> [] | Some v \<Rightarrow> v)"

definition ratio_of :: "tpl_config option \<Rightarrow> jstring" where
  "ratio_of tplConfig =
     (case Option.bind tplConfig tpl_imageRatio of None \<Rightarrow> asc ''1:1'' | Some v \<Rightarrow> v)"

definition model_of :: "tpl_config option \<Rightarrow> jstring" where
  "model_of tplConfig =
     (case Option.bind tplConfig tpl_model of None \<Rightarrow> asc ''gpt-4o-image-vip'' | Some v \<Rightarrow> v)"

text \<open>\<open>error.message || 'Unknown error during image generation'\<close>\<close>

definition error_text :: "error \<Rightarrow> jstring" where
  "error_text e =
     (if message e = [] then asc ''Unknown error during image generation'' else message e)"

text \<open>
  The two checks before the \<open>try\<close> block throw out of \<open>generateImage\<close>; whatever the block
  throws is caught, emitted as one error event and answered with the fallback message.
\<close>

definition generateImage ::
  "image_env \<Rightarrow> image_generation_state \<Rightarrow> tpl_config option
     \<Rightarrow> (error + message list) option \<times> image_effect list" where
  "generateImage env state tplConfig =
    (case gs_query state of
       None \<Rightarrow> (Some (Inl (Error msg_prompt_required)), [])
     | Some query \<Rightarrow>
        if query = [] then (Some (Inl (Error msg_prompt_required)), [])
        else if apiKey_of tplConfig = [] then (Some (Inl (Error msg_api_key_required)), [])
        else
         (case generateImage_try env query (gen_id state) (apiUrl_of tplConfig)
                 (apiKey_of tplConfig) (ratio_of tplConfig) (model_of tplConfig) of
            (None, t) \<Rightarrow> (None, SetMetadataStep (asc ''generateImage'') # t)
          | (Some (Inr msgs), t) \<Rightarrow>
              (Some (Inr msgs), SetMetadataStep (asc ''generateImage'') # t)
          | (Some (Inl e), t) \<Rightarrow>
              (Some (Inr [fallback_message e]),
               SetMetadataStep (asc ''generateImage'') # t @ [EmitEvent (ErrorEvent (error_text e))])))"

subsection \<open>What a stream yields\<close>

text \<open>
  The text of a stream is the concatenation of its chunks; \<open>url_of\<close> and \<open>gen_of\<close> are the
  values that the two assignments of the loop take from a text: group 1 of the first match
  if it is a non-empty string, and the empty string otherwise.
\<close>

fun chunk_text :: "read_result \<Rightarrow> jstring" where
  "chunk_text (ReadValue (Some c)) = c"
| "chunk_text _ = []"

definition stream_text :: "read_result list \<Rightarrow> jstring" where
  "stream_text reads = concat (map chunk_text reads)"

fun is_ReadValue :: "read_result \<Rightarrow> bool" where
  "is_ReadValue (ReadValue v) = True"
| "is_ReadValue _ = False"

definition url_of :: "jstring \<Rightarrow> jstring" where
  "url_of s = (case match_url s of Some u \<Rightarrow> u | None \<Rightarrow> [])"

definition gen_of :: "jstring \<Rightarrow> jstring" where
  "gen_of s = (case match_gen s of Some g \<Rightarrow> g | None \<Rightarrow> [])"

definition extracted :: "(error + stream_state) option \<times> image_effect list
                           \<Rightarrow> (jstring \<times> jstring) option" where
  "extracted r = (case fst r of Some (Inr st) \<Rightarrow> Some (imageUrl st, genId st) | _ \<Rightarrow> None)"

text \<open>
  Two properties of a matcher \<open>k\<close>, used to show that a match found in a buffer is the match
  found in every longer buffer: \<open>stable k\<close> says that a success stays the same when the text
  is extended, \<open>late k\<close> that a failure which an extension can turn into a success is a
  failure on every suffix of the text as well.
\<close>

definition stable :: "(jstring \<Rightarrow> 'a option) \<Rightarrow> bool" where
  "stable k \<longleftrightarrow> (\<forall>s q r. k s = Some r \<longrightarrow> k (s @ q) = Some r)"

definition late :: "(jstring \<Rightarrow> 'a option) \<Rightarrow> bool" where
  "late k \<longleftrightarrow> (\<forall>s q. k s = None \<longrightarrow> k (s @ q) \<noteq> None \<longrightarrow> (\<forall>t. suffix t s \<longrightarrow> k t = None))"

text \<open>The two markers of the example: an image link and a generation id.\<close>

definition url_marker :: jstring where
  "url_marker = asc ''![x](https://host/img.png)''"

definition gen_marker :: jstring where
  "gen_marker = asc ''gen_id: '' @ [0x60] @ asc ''abc123'' @ [0x60]"

text \<open>
  The literals that the two patterns start with: a match of the first begins with \<open>![\<close>, a
  match of the second with \<open>gen_id: \<close> and a backquote.
\<close>

definition link_open :: jstring where
  "link_open = asc ''![''"

definition gen_open :: jstring where
  "gen_open = asc ''gen_id: '' @ [0x60]"



definition chunk_reads :: "jstring list \<Rightarrow> read_result list" where
  "chunk_reads cs = map (\<lambda>c. ReadValue (Some c)) cs"


subsection \<open>Example values of the agent skill\<close>

definition mk_source :: "jstring \<Rightarrow> source" where
  "mk_source u = \<lparr> src_url = u, src_title = [], src_pageContent = [] \<rparr>"

definition example_pq :: "int \<Rightarrow> unit processed_query" where
  "example_pq budget =
     \<lparr> pq_optimizedQuery = asc ''q'', pq_query = asc ''q'', pq_usedChatHistory = [],
       pq_hasContext = True, pq_remainingTokens = budget, pq_mentionedContext = (),
       pq_rewrittenQueries = [] \<rparr>"

definition example_env ::
  "int \<Rightarrow> (error + mcp_tool list option) \<Rightarrow> (message list \<Rightarrow> error + message)
     \<Rightarrow> (unit, unit) agent_env" where
  "example_env budget tools llm =
     \<lparr> processQuery = (\<lambda>s. Inr (example_pq budget)),
       isValidUrl = (\<lambda>u. True),
       crawlExtractedUrls = (\<lambda>us. Inr (map mk_source us)),
       extractAndCrawlUrls = (\<lambda>q. Inr [mk_source (asc ''C''), mk_source (asc ''D'')]),
       checkModelContextLenSupport = (\<lambda>m. True),
       prepareContext = (\<lambda>a. Inr \<lparr> contextStr = asc ''ctx'', sources = pa_urlSources a \<rparr>),
       buildFinalRequestMessages = (\<lambda>b. [HumanMessage (Text (ba_context b @ ba_originalQuery b))]),
       truncateSource = (\<lambda>s. s),
       listMcpServers = Inr [],
       initializeConnections = Inr (),
       getTools = tools,
       chatModel = (\<lambda>ts. llm),
       toolNode = (\<lambda>ts ms. Inr [ToolMessage (Text (asc ''r'')) (asc ''1'')]) \<rparr>"

definition example_config :: "unit configurable" where
  "example_config =
     \<lparr> cfg_locale = None, cfg_modelConfigMap_chat = (), cfg_project = None,
       cfg_runtimeConfig = None,
       cfg_urls = Some [\<lparr> item_url = asc ''A'' \<rparr>, \<lparr> item_url = asc ''B'' \<rparr>] \<rparr>"

definition example_state :: graph_state where
  "example_state = \<lparr> gs_messages = None, gs_images = None, gs_query = Some (asc ''q'') \<rparr>"

definition example_tool :: mcp_tool where
  "example_tool = \<lparr> tool_name = asc ''search'' \<rparr>"

definition example_call :: tool_call where
  "example_call = \<lparr> tc_name = asc ''search'', tc_args = asc ''{}'', tc_id = asc ''1'' \<rparr>"

subsection \<open>Abbreviations and example values of the image generation\<close>

text \<open>The request of a run, and the effects of a run up to and including the request.\<close>

definition state_request :: "image_generation_state \<Rightarrow> tpl_config option \<Rightarrow> jstring \<Rightarrow> request" where
  "state_request state cfg query =
     mk_request query (gen_id state) (apiUrl_of cfg) (apiKey_of cfg) (ratio_of cfg) (model_of cfg)"

definition started :: "image_generation_state \<Rightarrow> tpl_config option \<Rightarrow> jstring \<Rightarrow> image_effect list" where
  "started state cfg query =
     SetMetadataStep (asc ''generateImage'')
       # request_effects query (gen_id state) (apiUrl_of cfg) (apiKey_of cfg) (ratio_of cfg)
           (model_of cfg)"

definition run_try :: "image_env \<Rightarrow> image_generation_state \<Rightarrow> tpl_config option \<Rightarrow> jstring
                         \<Rightarrow> (error + message list) option \<times> image_effect list" where
  "run_try env state cfg query =
     generateImage_try env query (gen_id state) (apiUrl_of cfg) (apiKey_of cfg) (ratio_of cfg)
       (model_of cfg)"

definition streaming :: "read_result list \<Rightarrow> response" where
  "streaming reads =
     \<lparr> resp_ok = True, resp_status = 200, resp_text = Inr [], resp_body = Some reads \<rparr>"

definition example_image_env :: "response \<Rightarrow> (nat \<Rightarrow> int) \<Rightarrow> image_env" where
  "example_image_env resp clock =
     \<lparr> fetch = (\<lambda>r. Inr resp), elapsed = clock, genImageID = asc ''img-1'', now = 1700,
       aiMessageThrows = False \<rparr>"

definition example_image_state :: "jstring option \<Rightarrow> image_generation_state" where
  "example_image_state q = \<lparr> gs_messages = None, gs_images = None, gs_query = q, gen_id = None \<rparr>"

definition example_tpl :: "jstring option \<Rightarrow> tpl_config option" where
  "example_tpl key =
     Some \<lparr> tpl_apiUrl = None, tpl_apiKey = key, tpl_imageRatio = None, tpl_model = None \<rparr>"

text \<open>A text with both markers, as one chunk.\<close>

definition whole_stream :: "read_result list" where
  "whole_stream = [ReadValue (Some (url_marker @ asc '' '' @ gen_marker))]"

text \<open>
  The same text cut inside each marker, with a sentence before the image link; a text with an
  earlier image link; a stream that stalls after the generation id.
\<close>

definition split_chunks :: "jstring list" where
  "split_chunks =
     [asc ''Done! ![x](https://ho'', asc ''st/img.png) gen_'',
      asc ''id: '' @ [0x60] @ asc ''abc'', asc ''123'' @ [0x60]]"

definition done_stream :: "read_result list" where
  "done_stream = chunk_reads split_chunks"

definition earlier_link_stream :: "read_result list" where
  "earlier_link_stream =
     [ReadValue (Some (asc ''![a](https://o/a.png) '' @ url_marker @ asc '' '' @ gen_marker))]"


text \<open>A stream that gives the generation id first, and a clock that runs out after one read.\<close>

definition gen_then_url :: "read_result list" where
  "gen_then_url = [ReadValue (Some gen_marker), ReadValue (Some url_marker)]"

definition late_clock :: "nat \<Rightarrow> int" where
  "late_clock i = (if i = 0 then 0 else timeout)"

definition failed_response :: response where
  "failed_response =
     \<lparr> resp_ok = False, resp_status = 500, resp_text = Inr (asc ''boom''), resp_body = None \<rparr>"

definition bodyless_response :: response where
  "bodyless_response =
     \<lparr> resp_ok = True, resp_status = 200, resp_text = Inr [], resp_body = None \<rparr>"

section \<open>Properties of the agent skill\<close>

text \<open>
  C1. Whenever the last message of the graph state is a model response, the edge after the
  llm node goes to END (and not to the tools node) if the response has zero tool calls
  (the list is empty or absent), and goes to the tools node if it has one or more.
\<close>

theorem conditionalEdge_routes:
  assumes "messages \<noteq> []" and "is_AIMessage (last messages)"
  shows "(tool_calls (last messages) = None \<or> tool_calls (last messages) = Some []
            \<longrightarrow> conditionalEdge messages = Inr END \<and> conditionalEdge messages \<noteq> Inr TOOLS)
       \<and> (\<forall>tcs. tool_calls (last messages) = Some tcs \<and> length tcs \<ge> 1
            \<longrightarrow> conditionalEdge messages = Inr TOOLS)"
  using assms by (auto simp: conditionalEdge_def)

theorem conditionalEdge_routes_witness:
  "[HumanMessage (Text (asc ''hi'')), AIMessage (Text (asc ''done'')) (Some [])] \<noteq> []
   \<and> is_AIMessage (last [HumanMessage (Text (asc ''hi'')), AIMessage (Text (asc ''done'')) (Some [])])
   \<and> conditionalEdge [HumanMessage (Text (asc ''hi'')), AIMessage (Text (asc ''done'')) (Some [])] = Inr END
   \<and> conditionalEdge [HumanMessage (Text (asc ''hi'')),
        AIMessage (Text []) (Some [\<lparr>tc_name = asc ''search'', tc_args = asc ''{}'', tc_id = asc ''1''\<rparr>])]
       = Inr TOOLS"
  using conditionalEdge_routes
    [of "[HumanMessage (Text (asc ''hi'')), AIMessage (Text (asc ''done'')) (Some [])]"]
    conditionalEdge_routes
    [of "[HumanMessage (Text (asc ''hi'')),
        AIMessage (Text []) (Some [\<lparr>tc_name = asc ''search'', tc_args = asc ''{}'', tc_id = asc ''1''\<rparr>])]"]
  by simp

text \<open>
  C4. When the query processor returns a token budget that is zero or negative,
  \<open>commonPreprocess\<close> never calls \<open>prepareContext\<close>; the message builder, when it is
  reached, gets the empty context string and a false \<open>needPrepareContext\<close>, and on normal
  return it has been called and no sources are returned.
\<close>

theorem commonPreprocess_skips_context:
  assumes pq: "processQuery env state = Inr pq" and budget: "pq_remainingTokens pq \<le> 0"
  shows "(\<forall>e \<in> set (snd (commonPreprocess env state config ci)). \<not> is_CallPrepareContext e)
       \<and> (\<forall>bargs. CallBuildFinalRequestMessages bargs \<in> set (snd (commonPreprocess env state config ci))
             \<longrightarrow> ba_context bargs = [] \<and> \<not> ba_needPrepareContext bargs)
       \<and> (\<forall>rm srcs. fst (commonPreprocess env state config ci) = Inr (rm, srcs)
             \<longrightarrow> srcs = [] \<and> (\<exists>bargs. CallBuildFinalRequestMessages bargs
                                     \<in> set (snd (commonPreprocess env state config ci))
                                   \<and> rm = buildFinalRequestMessages env bargs))"
  using pq budget
  by (auto simp: commonPreprocess_def Let_def split: sum.splits if_splits)

theorem commonPreprocess_skips_context_witness:
  "processQuery (example_env (-3) (Inr None) (\<lambda>ms. Inl (Error []))) example_state = Inr (example_pq (-3))
   \<and> pq_remainingTokens (example_pq (-3)) \<le> 0
   \<and> filter is_CallPrepareContext
         (snd (commonPreprocess (example_env (-3) (Inr None) (\<lambda>ms. Inl (Error [])))
                 example_state example_config None)) = []
   \<and> (\<exists>bargs. fst (commonPreprocess (example_env (-3) (Inr None) (\<lambda>ms. Inl (Error [])))
                          example_state example_config None)
                = Inr (buildFinalRequestMessages (example_env (-3) (Inr None) (\<lambda>ms. Inl (Error []))) bargs, [])
              \<and> ba_context bargs = [])"
proof -
  let ?env = "example_env (-3) (Inr None) (\<lambda>ms. Inl (Error []))"
  have h1: "processQuery ?env example_state = Inr (example_pq (-3))"
    by (simp add: example_env_def)
  have h2: "pq_remainingTokens (example_pq (-3)) \<le> 0"
    by (simp add: example_pq_def)
  have ok: "\<exists>rm. fst (commonPreprocess ?env example_state example_config None) = Inr (rm, [])"
    by (simp add: commonPreprocess_def example_env_def example_pq_def example_config_def
        example_state_def Let_def)
  from commonPreprocess_skips_context [OF h1 h2, of example_config None] ok h1 h2
  show ?thesis by (fastforce simp: filter_empty_conv)
qed

text \<open>
  C5. The URL sources given to \<open>prepareContext\<close> are the sources crawled from the context
  URLs (none when there is no valid context URL) followed by the sources crawled from the
  query; with a positive budget and at least one source, \<open>prepareContext\<close> is called with
  that list.
\<close>

theorem commonPreprocess_merges_url_sources:
  assumes pq: "processQuery env state = Inr pq"
    and ctx: "(let contextUrls = (case cfg_urls config of None \<Rightarrow> [] | Some us \<Rightarrow> us);
                   urls = filter (\<lambda>u. u \<noteq> [] \<and> isValidUrl env u) (map item_url contextUrls)
               in if length contextUrls > 0 \<and> length urls > 0 then crawlExtractedUrls env urls
                  else Inr []) = Inr contextUrlSources"
    and qry: "extractAndCrawlUrls env (pq_query pq) = Inr queryUrlSources"
  shows "(\<forall>pargs. CallPrepareContext pargs \<in> set (snd (commonPreprocess env state config ci))
             \<longrightarrow> pa_urlSources pargs = contextUrlSources @ queryUrlSources)
       \<and> (pq_remainingTokens pq > 0 \<and> contextUrlSources @ queryUrlSources \<noteq> []
             \<longrightarrow> (\<exists>pargs. CallPrepareContext pargs \<in> set (snd (commonPreprocess env state config ci))
                    \<and> pa_urlSources pargs = contextUrlSources @ queryUrlSources))"
  using pq ctx qry
  by (auto simp: commonPreprocess_def Let_def split: sum.splits if_splits)


theorem commonPreprocess_merges_url_sources_witness:
  "pa_urlSources ` {pargs. CallPrepareContext pargs
       \<in> set (snd (commonPreprocess (example_env 1000 (Inr None) (\<lambda>ms. Inl (Error [])))
                     example_state example_config None))}
   = {[mk_source (asc ''A''), mk_source (asc ''B''), mk_source (asc ''C''), mk_source (asc ''D'')]}"
proof -
  let ?env = "example_env 1000 (Inr None) (\<lambda>ms. Inl (Error []))"
  have h1: "processQuery ?env example_state = Inr (example_pq 1000)"
    by (simp add: example_env_def)
  have h2: "(let contextUrls = (case cfg_urls example_config of None \<Rightarrow> [] | Some us \<Rightarrow> us);
                 urls = filter (\<lambda>u. u \<noteq> [] \<and> isValidUrl ?env u) (map item_url contextUrls)
             in if length contextUrls > 0 \<and> length urls > 0 then crawlExtractedUrls ?env urls
                else Inr []) = Inr [mk_source (asc ''A''), mk_source (asc ''B'')]"
    by (simp add: example_env_def example_config_def)
  have h3: "extractAndCrawlUrls ?env (pq_query (example_pq 1000))
              = Inr [mk_source (asc ''C''), mk_source (asc ''D'')]"
    by (simp add: example_env_def)
  have h4: "pq_remainingTokens (example_pq 1000) > 0"
    by (simp add: example_pq_def)
  from commonPreprocess_merges_url_sources [OF h1 h2 h3, of None] h4
  show ?thesis by auto
qed

lemma invoke_always_tool_calls:
  assumes llm: "\<And>ms. \<exists>r tcs. llmNode ms = Inr r \<and> tool_calls r = Some tcs \<and> tcs \<noteq> []"
    and tools: "\<And>ms. \<exists>tm. toolsNode ms = Inr tm"
  shows "n \<noteq> END \<Longrightarrow> invoke llmNode toolsNode k n ms
           = (Inl (GraphRecursionError (asc ''Recursion limit reached without hitting a stop condition'')),
              alternate k n)"
proof (induction k arbitrary: n ms)
  case 0
  then show ?case by (cases n) simp_all
next
  case (Suc k)
  show ?case
  proof (cases n)
    case LLM
    obtain r tcs where r: "llmNode ms = Inr r" "tool_calls r = Some tcs" "tcs \<noteq> []"
      using llm by blast
    then have "conditionalEdge (ms @ [r]) = Inr TOOLS"
      by (simp add: conditionalEdge_def)
    with r LLM Suc.IH [of TOOLS "ms @ [r]"] show ?thesis by (simp add: ran_def)
  next
    case TOOLS
    obtain tm where "toolsNode ms = Inr tm" using tools by blast
    with TOOLS Suc.IH [of LLM "ms @ tm"] show ?thesis by (simp add: ran_def)
  next
    case END
    with Suc.prems show ?thesis by simp
  qed
qed

lemma alternate_pairs: "alternate (2 * j) LLM = concat (replicate j [LLM, TOOLS])"
  by (induction j) simp_all

lemma alternate_limit: "alternate recursionLimit LLM = concat (replicate 50 [LLM, TOOLS])"
proof -
  have "recursionLimit = 2 * 50" by (simp add: recursionLimit_def)
  then have "alternate recursionLimit LLM = alternate (2 * 50) LLM" by (rule arg_cong)
  also have "\<dots> = concat (replicate 50 [LLM, TOOLS])" by (rule alternate_pairs)
  finally show ?thesis .
qed

lemma length_rounds: "length (concat (replicate j [a, b])) = 2 * j"
  by (induction j) simp_all

lemma length_fifty_rounds: "length (concat (replicate 50 [LLM, TOOLS])) = 100"
proof -
  have "length (concat (replicate 50 [LLM, TOOLS])) = 2 * 50" by (rule length_rounds)
  also have "\<dots> = 100" by simp
  finally show ?thesis .
qed

lemma commonPreprocess_no_client:
  "e \<in> set (snd (commonPreprocess env state config ci))
     \<Longrightarrow> e \<noteq> ClientClose \<and> e \<noteq> NewMultiServerMCPClient \<and> \<not> is_RunNode e"
  by (auto simp: commonPreprocess_def Let_def split: sum.splits if_splits)

lemma setupAgent_never_closes:
  "e \<in> set (snd (setupAgent env)) \<Longrightarrow> e \<noteq> ClientClose \<and> \<not> is_RunNode e"
  by (auto simp: setupAgent_def Let_def split: sum.splits option.splits if_splits)

lemma commonPreprocess_runs_no_node:
  "filter is_RunNode (snd (commonPreprocess env state config ci)) = []"
  using commonPreprocess_no_client [of _ env state config ci]
  by (auto simp: filter_empty_conv)

lemma setupAgent_runs_no_node: "filter is_RunNode (snd (setupAgent env)) = []"
  using setupAgent_never_closes [of _ env]
  by (auto simp: filter_empty_conv)

lemma filter_RunNode_map: "filter is_RunNode (map RunNode steps) = map RunNode steps"
  by (induction steps) simp_all

text \<open>
  C2. With a model that answers every call with at least one tool call and a tool node that
  always returns, the workflow run with \<open>recursionLimit = 100\<close> executes exactly 100 nodes,
  llm and tools in turn (50 calls of the model, 50 of the tool node), and then ends with the
  recursion error of the graph runner. \<open>agentNode\<close> runs these 100 nodes, closes the client
  and ends with that same error: it is neither caught nor turned into a normal return.
\<close>

theorem agentNode_recursion_limit:
  assumes pre: "fst (commonPreprocess env state config (projectCustomInstructions config))
                  = Inr (requestMessages, srcs)"
    and stp: "fst (setupAgent env) = Inr mcpTools"
    and llm: "\<forall>ms. \<exists>r tcs. chatModel env mcpTools ms = Inr r \<and> tool_calls r = Some tcs \<and> tcs \<noteq> []"
    and tools: "\<forall>ms. \<exists>tm. toolNode env mcpTools ms = Inr tm"
  shows "invoke (chatModel env mcpTools) (toolNode env mcpTools) recursionLimit LLM requestMessages
           = (Inl (GraphRecursionError (asc ''Recursion limit reached without hitting a stop condition'')),
              concat (replicate 50 [LLM, TOOLS]))
       \<and> fst (agentNode env state config)
           = Inl (GraphRecursionError (asc ''Recursion limit reached without hitting a stop condition''))
       \<and> filter is_RunNode (snd (agentNode env state config))
           = map RunNode (concat (replicate 50 [LLM, TOOLS]))
       \<and> length (filter is_RunNode (snd (agentNode env state config))) = 100
       \<and> last (snd (agentNode env state config)) = ClientClose"
proof -
  define steps where "steps = concat (replicate 50 [LLM, TOOLS])"
  define err where
    "err = GraphRecursionError (asc ''Recursion limit reached without hitting a stop condition'')"
  have inv: "invoke (chatModel env mcpTools) (toolNode env mcpTools) recursionLimit LLM requestMessages
           = (Inl err, steps)"
    using invoke_always_tool_calls [of "chatModel env mcpTools" "toolNode env mcpTools" LLM
        recursionLimit requestMessages] llm tools
    unfolding steps_def err_def alternate_limit by simp
  obtain t1 where t1: "commonPreprocess env state config (projectCustomInstructions config)
                         = (Inr (requestMessages, srcs), t1)"
    using pre by (cases "commonPreprocess env state config (projectCustomInstructions config)") simp
  obtain t3 where t3: "setupAgent env = (Inr mcpTools, t3)"
    using stp by (cases "setupAgent env") simp
  have n1: "filter is_RunNode t1 = []"
    using commonPreprocess_runs_no_node [of env state config "projectCustomInstructions config"] t1
    by simp
  have n3: "filter is_RunNode t3 = []"
    using setupAgent_runs_no_node [of env] t3 by simp
  have run: "agentNode env state config
           = (Inl err,
              t1 @ [SetStep (asc ''answerQuestion'')]
                 @ (if length srcs > 0 then [EmitLargeDataEvent (truncateSource env srcs)] else [])
                 @ t3 @ [WorkflowInvoke requestMessages] @ map RunNode steps @ [ClientClose])"
    using inv by (simp add: agentNode_def t1 t3 Let_def)
  have ran_nodes: "filter is_RunNode (snd (agentNode env state config)) = map RunNode steps"
    unfolding run by (simp add: n1 n3 filter_RunNode_map)
  have len: "length (filter is_RunNode (snd (agentNode env state config))) = 100"
    unfolding ran_nodes steps_def by (simp only: length_map length_fifty_rounds)
  have lst: "last (snd (agentNode env state config)) = ClientClose"
    unfolding run by simp
  have res: "fst (agentNode env state config) = Inl err"
    unfolding run by simp
  from inv res ran_nodes len lst show ?thesis
    unfolding steps_def err_def by blast
qed

theorem agentNode_recursion_limit_witness:
  "fst (setupAgent (example_env 5 (Inr (Some [example_tool]))
          (\<lambda>ms. Inr (AIMessage (Text []) (Some [example_call]))))) = Inr [example_tool]
   \<and> fst (agentNode (example_env 5 (Inr (Some [example_tool]))
          (\<lambda>ms. Inr (AIMessage (Text []) (Some [example_call])))) example_state example_config)
       = Inl (GraphRecursionError (asc ''Recursion limit reached without hitting a stop condition''))
   \<and> length (filter is_RunNode (snd (agentNode (example_env 5 (Inr (Some [example_tool]))
          (\<lambda>ms. Inr (AIMessage (Text []) (Some [example_call])))) example_state example_config)))
       = 100"
proof -
  let ?env = "example_env 5 (Inr (Some [example_tool]))
          (\<lambda>ms. Inr (AIMessage (Text []) (Some [example_call])))"
  have h1: "fst (commonPreprocess ?env example_state example_config
                   (projectCustomInstructions example_config))
              = Inr ([HumanMessage (Text (asc ''ctxq''))],
                     [mk_source (asc ''A''), mk_source (asc ''B''), mk_source (asc ''C''),
                      mk_source (asc ''D'')])"
    by (simp add: commonPreprocess_def example_env_def example_pq_def example_config_def
        example_state_def Let_def)
  have h2: "fst (setupAgent ?env) = Inr [example_tool]"
    by (simp add: setupAgent_def example_env_def Let_def)
  have h3: "\<forall>ms. \<exists>r tcs. chatModel ?env [example_tool] ms = Inr r \<and> tool_calls r = Some tcs \<and> tcs \<noteq> []"
    by (simp add: example_env_def)
  have h4: "\<forall>ms. \<exists>tm. toolNode ?env [example_tool] ms = Inr tm"
    by (simp add: example_env_def)
  from agentNode_recursion_limit [OF h1 h2 h3 h4] h2 show ?thesis by blast
qed

text \<open>
  C3. Exactly one \<open>close\<close> of the client on every exit of \<open>agentNode\<close> does not hold on the
  exit through a failed setup. When the setup fails after the client has been created, here
  because the list of tools is empty, \<open>agentNode\<close> ends with the setup error, the client has
  been created and its connections initialized, and \<open>close\<close> has not been invoked.
\<close>

theorem agentNode_setup_failure_leaves_client_open:
  "fst (agentNode (example_env 5 (Inr (Some [])) (\<lambda>ms. Inr (AIMessage (Text []) (Some []))))
          example_state example_config)
     = Inl (Error (asc ''Failed to initialize MCP tools''))
   \<and> NewMultiServerMCPClient \<in> set (snd (agentNode (example_env 5 (Inr (Some []))
          (\<lambda>ms. Inr (AIMessage (Text []) (Some [])))) example_state example_config))
   \<and> CallInitializeConnections \<in> set (snd (agentNode (example_env 5 (Inr (Some []))
          (\<lambda>ms. Inr (AIMessage (Text []) (Some [])))) example_state example_config))
   \<and> count_list (snd (agentNode (example_env 5 (Inr (Some []))
          (\<lambda>ms. Inr (AIMessage (Text []) (Some [])))) example_state example_config)) ClientClose = 0"
  by (simp add: agentNode_def commonPreprocess_def setupAgent_def example_env_def example_pq_def
      example_config_def example_state_def projectCustomInstructions_def Let_def)

text \<open>
  Once \<open>setupAgent\<close> has succeeded, \<open>close\<close> is invoked exactly once, whether the workflow
  returns or throws; when \<open>setupAgent\<close> fails, it is not invoked at all.
\<close>

lemma agentNode_closes_once_after_setup:
  assumes pre: "fst (commonPreprocess env state config (projectCustomInstructions config))
                  = Inr (requestMessages, srcs)"
    and stp: "fst (setupAgent env) = Inr mcpTools"
  shows "count_list (snd (agentNode env state config)) ClientClose = 1"
proof -
  obtain t1 where t1: "commonPreprocess env state config (projectCustomInstructions config)
                         = (Inr (requestMessages, srcs), t1)"
    using pre by (cases "commonPreprocess env state config (projectCustomInstructions config)") simp
  obtain t3 where t3: "setupAgent env = (Inr mcpTools, t3)"
    using stp by (cases "setupAgent env") simp
  have n1: "ClientClose \<notin> set t1"
    using commonPreprocess_no_client [of ClientClose env state config "projectCustomInstructions config"] t1
    by auto
  have n3: "ClientClose \<notin> set t3"
    using setupAgent_never_closes [of ClientClose env] t3 by auto
  show ?thesis
    unfolding agentNode_def t1 t3 using n1 n3
    by (auto simp: Let_def count_list_0_iff split: prod.splits)
qed

lemma agentNode_setup_error_never_closes:
  assumes pre: "fst (commonPreprocess env state config (projectCustomInstructions config))
                  = Inr (requestMessages, srcs)"
    and stp: "fst (setupAgent env) = Inl e"
  shows "count_list (snd (agentNode env state config)) ClientClose = 0"
proof -
  obtain t1 where t1: "commonPreprocess env state config (projectCustomInstructions config)
                         = (Inr (requestMessages, srcs), t1)"
    using pre by (cases "commonPreprocess env state config (projectCustomInstructions config)") simp
  obtain t3 where t3: "setupAgent env = (Inl e, t3)"
    using stp by (cases "setupAgent env") simp
  have n1: "ClientClose \<notin> set t1"
    using commonPreprocess_no_client [of ClientClose env state config "projectCustomInstructions config"] t1
    by auto
  have n3: "ClientClose \<notin> set t3"
    using setupAgent_never_closes [of ClientClose env] t3 by auto
  show ?thesis
    unfolding agentNode_def t1 t3 using n1 n3
    by (simp add: Let_def count_list_0_iff)
qed

section \<open>Properties of the image generation skill\<close>

subsection \<open>A match in a buffer is the match in every longer buffer\<close>

lemma stableD:
  assumes "stable k" and "k s = Some r"
  shows "k (s @ q) = Some r"
  using assms(1) [unfolded stable_def, rule_format, OF assms(2)] .

lemma lateD:
  assumes "late k" and "k s = None" and "k (s @ q) \<noteq> None" and "suffix t s"
  shows "k t = None"
  using assms(1) [unfolded late_def, rule_format, OF assms(2) assms(3) assms(4)] .

lemma stable_accept: "stable accept"
  by (simp add: stable_def accept_def)

lemma late_accept: "late accept"
  by (simp add: late_def accept_def)

lemma lit_eq: "lit p k s = (if prefix p s then k (drop (length p) s) else None)"
  by (induction p k s rule: lit.induct) auto

lemma stable_lit:
  assumes "stable k"
  shows "stable (lit p k)"
  unfolding stable_def
proof (intro allI impI)
  fix s q r
  assume "lit p k s = Some r"
  then have p: "prefix p s" and r: "k (drop (length p) s) = Some r"
    by (auto simp: lit_eq split: if_splits)
  from p have "length p \<le> length s" by (rule prefix_length_le)
  then have "drop (length p) (s @ q) = drop (length p) s @ q" by simp
  moreover from p have "prefix p (s @ q)" by (rule prefix_prefix)
  moreover from assms r have "k (drop (length p) s @ q) = Some r" by (rule stableD)
  ultimately show "lit p k (s @ q) = Some r" by (simp add: lit_eq)
qed

lemma suffix_of_shorter:
  assumes "suffix a (x @ b)" and "length a \<le> length b"
  shows "suffix a b"
  using assms by (auto simp: suffix_append)

lemma late_lit:
  assumes "late k"
  shows "late (lit p k)"
  unfolding late_def
proof (intro allI impI)
  fix s q t
  assume none: "lit p k s = None" and some: "lit p k (s @ q) \<noteq> None" and t: "suffix t s"
  from some have pq: "prefix p (s @ q)" and kq: "k (drop (length p) (s @ q)) \<noteq> None"
    by (auto simp: lit_eq split: if_splits)
  show "lit p k t = None"
  proof (cases "prefix p s")
    case True
    then obtain r where s: "s = p @ r" by (auto simp: prefix_def)
    from none True have kr: "k r = None" by (simp add: lit_eq s)
    from kq have krq: "k (r @ q) \<noteq> None" by (simp add: s)
    show ?thesis
    proof (cases "prefix p t")
      case False
      then show ?thesis by (simp add: lit_eq)
    next
      case True
      then obtain r' where t': "t = p @ r'" by (auto simp: prefix_def)
      from t have "length t \<le> length s" by (rule suffix_length_le)
      then have len: "length r' \<le> length r" by (simp add: s t')
      have "suffix r' t" by (simp add: t' suffixI)
      with t have "suffix r' (p @ r)" unfolding s by (meson suffix_order.trans)
      with len have "suffix r' r" by (meson suffix_of_shorter)
      with assms kr krq have "k r' = None" by (meson lateD)
      then show ?thesis by (simp add: lit_eq t')
    qed
  next
    case False
    have "length s < length p"
    proof (rule ccontr)
      assume "\<not> length s < length p"
      then have "take (length p) (s @ q) = take (length p) s" by simp
      moreover from pq have "take (length p) (s @ q) = p"
        by (metis append_eq_conv_conj prefix_def)
      ultimately have "prefix p s" by (metis take_is_prefix)
      with False show False by simp
    qed
    moreover from t have "length t \<le> length s" by (rule suffix_length_le)
    ultimately have "\<not> prefix p t" using prefix_length_le by fastforce
    then show ?thesis by (simp add: lit_eq)
  qed
qed

lemma lazy_dots_Some_suffix:
  "lazy_dots k s = Some y \<Longrightarrow> \<exists>t. suffix t s \<and> k t \<noteq> None"
proof (induction s arbitrary: y)
  case Nil
  then show ?case by auto
next
  case (Cons c cs)
  show ?case
  proof (cases "k (c # cs)")
    case (Some r)
    then show ?thesis by (metis option.distinct(1) suffix_order.refl)
  next
    case None
    with Cons.prems obtain y' where "lazy_dots k cs = Some y'"
      by (auto split: if_splits)
    from Cons.IH [OF this] obtain t where "suffix t cs" "k t \<noteq> None" by blast
    then show ?thesis by (meson suffix_Cons)
  qed
qed

lemma stable_lazy_dots:
  assumes st: "stable k" and la: "late k"
  shows "stable (lazy_dots k)"
  unfolding stable_def
proof (intro allI impI)
  fix s q y
  show "lazy_dots k s = Some y \<Longrightarrow> lazy_dots k (s @ q) = Some y"
  proof (induction s arbitrary: y)
    case Nil
    then obtain r where r: "k [] = Some r" and y: "y = ([], r)" by auto
    from st r have "k ([] @ q) = Some r" by (rule stableD)
    then show ?case by (cases q) (simp_all add: y)
  next
    case (Cons c cs)
    show ?case
    proof (cases "k (c # cs)")
      case (Some r)
      with st have "k ((c # cs) @ q) = Some r" by (rule stableD)
      with Some Cons.prems show ?thesis by simp
    next
      case None
      with Cons.prems obtain y' where c: "\<not> is_line_terminator c"
        and y': "lazy_dots k cs = Some y'" and y: "y = (c # fst y', snd y')"
        by (auto split: if_splits)
      from lazy_dots_Some_suffix [OF y'] obtain t where t: "suffix t cs" "k t \<noteq> None" by blast
      then have tc: "suffix t (c # cs)" by (simp add: suffix_Cons)
      have "k ((c # cs) @ q) = None"
      proof (rule ccontr)
        assume "k ((c # cs) @ q) \<noteq> None"
        from lateD [OF la None this tc] t(2) show False by simp
      qed
      with c Cons.IH [OF y'] y show ?thesis by (simp add: case_prod_beta)
    qed
  qed
qed

lemma lazy_dots_undecided:
  assumes la: "late k"
  shows "lazy_dots k s = None \<Longrightarrow> lazy_dots k (s @ q) \<noteq> None
           \<Longrightarrow> (\<forall>t. suffix t s \<longrightarrow> k t = None)"
proof (induction s)
  case Nil
  then show ?case by auto
next
  case (Cons c cs)
  from Cons.prems(1) have kn: "k (c # cs) = None"
    by (auto split: option.splits)
  show ?case
  proof (cases "k ((c # cs) @ q)")
    case (Some r)
    then have "k ((c # cs) @ q) \<noteq> None" by simp
    with la kn show ?thesis by (meson lateD)
  next
    case None
    with Cons.prems(2) have c: "\<not> is_line_terminator c" and "lazy_dots k (cs @ q) \<noteq> None"
      by (auto split: if_splits)
    moreover from Cons.prems(1) kn c have "lazy_dots k cs = None" by simp
    ultimately have "\<forall>t. suffix t cs \<longrightarrow> k t = None" using Cons.IH by blast
    with kn show ?thesis by (auto simp: suffix_Cons)
  qed
qed

lemma lazy_dots_all_fail:
  "(\<forall>t. suffix t s \<longrightarrow> k t = None) \<Longrightarrow> lazy_dots k s = None"
proof (induction s)
  case Nil
  then show ?case by simp
next
  case (Cons c cs)
  then have "k (c # cs) = None" and "lazy_dots k cs = None"
    by (auto simp: suffix_Cons)
  then show ?case by simp
qed

lemma late_lazy_dots:
  assumes la: "late k"
  shows "late (lazy_dots k)"
  unfolding late_def
proof (intro allI impI)
  fix s q t
  assume "lazy_dots k s = None" and "lazy_dots k (s @ q) \<noteq> None" and t: "suffix t s"
  with lazy_dots_undecided [OF la] have all: "\<forall>u. suffix u s \<longrightarrow> k u = None" by blast
  have "\<forall>u. suffix u t \<longrightarrow> k u = None"
    using all t suffix_order.trans by blast
  then show "lazy_dots k t = None" by (rule lazy_dots_all_fail)
qed

lemma search_Some_suffix:
  "search m s = Some y \<Longrightarrow> \<exists>t. suffix t s \<and> m t \<noteq> None"
proof (induction s)
  case Nil
  then show ?case by auto
next
  case (Cons c cs)
  show ?case
  proof (cases "m (c # cs)")
    case (Some r)
    then show ?thesis by (metis option.distinct(1) suffix_order.refl)
  next
    case None
    with Cons.prems have "search m cs = Some y" by simp
    from Cons.IH [OF this] obtain t where "suffix t cs" "m t \<noteq> None" by blast
    then show ?thesis by (meson suffix_Cons)
  qed
qed

lemma stable_search:
  assumes st: "stable m" and la: "late m"
  shows "stable (search m)"
  unfolding stable_def
proof (intro allI impI)
  fix s q y
  show "search m s = Some y \<Longrightarrow> search m (s @ q) = Some y"
  proof (induction s)
    case Nil
    then have "m [] = Some y" by simp
    with st have "m ([] @ q) = Some y" by (rule stableD)
    then show ?case by (cases q) simp_all
  next
    case (Cons c cs)
    show ?case
    proof (cases "m (c # cs)")
      case (Some r)
      with st have "m ((c # cs) @ q) = Some r" by (rule stableD)
      with Some Cons.prems show ?thesis by simp
    next
      case None
      with Cons.prems have y: "search m cs = Some y" by simp
      from search_Some_suffix [OF y] obtain t where t: "suffix t cs" "m t \<noteq> None" by blast
      then have tc: "suffix t (c # cs)" by (simp add: suffix_Cons)
      have "m ((c # cs) @ q) = None"
      proof (rule ccontr)
        assume "m ((c # cs) @ q) \<noteq> None"
        from lateD [OF la None this tc] t(2) show False by simp
      qed
      with Cons.IH [OF y] show ?thesis by simp
    qed
  qed
qed

lemma late_url_at: "late url_at"
  unfolding url_at_def
  by (intro late_lit late_lazy_dots late_accept)

lemma stable_url_at: "stable url_at"
  unfolding url_at_def
  by (intro stable_lit stable_lazy_dots late_lit late_lazy_dots stable_accept late_accept)

lemma late_gen_at: "late gen_at"
  unfolding gen_at_def
  by (intro late_lit late_lazy_dots late_accept)

lemma stable_gen_at: "stable gen_at"
  unfolding gen_at_def
  by (intro stable_lit stable_lazy_dots late_lit late_lazy_dots stable_accept late_accept)

lemma match_url_append: "match_url s = Some u \<Longrightarrow> match_url (s @ q) = Some u"
  using stableD [OF stable_search [OF stable_url_at late_url_at], of s _ q]
  by (auto simp: match_url_def)

lemma match_gen_append: "match_gen s = Some g \<Longrightarrow> match_gen (s @ q) = Some g"
  using stableD [OF stable_search [OF stable_gen_at late_gen_at], of s _ q]
  by (auto simp: match_gen_def)

subsection \<open>The loop extracts the first matches of the whole text\<close>

lemma url_of_append: "url_of s \<noteq> [] \<Longrightarrow> url_of (s @ q) = url_of s"
  using match_url_append [of s _ q]
  by (auto simp: url_of_def split: option.splits)

lemma gen_of_append: "gen_of s \<noteq> [] \<Longrightarrow> gen_of (s @ q) = gen_of s"
  using match_gen_append [of s _ q]
  by (auto simp: gen_of_def split: option.splits)

lemma absorb_fullResponse: "fullResponse (absorb c st) = fullResponse st @ c"
  by (simp add: absorb_def Let_def)

lemma absorb_imageUrl:
  assumes "imageUrl st = url_of (fullResponse st)"
  shows "imageUrl (absorb c st) = url_of (fullResponse st @ c)"
proof (cases "url_of (fullResponse st) = []")
  case True
  with assms show ?thesis
    by (auto simp: absorb_def Let_def url_of_def split: option.splits)
next
  case False
  from url_of_append [OF False, of c] False assms show ?thesis
    by (auto simp: absorb_def Let_def url_of_def split: option.splits)
qed

lemma absorb_genId:
  assumes "genId st = gen_of (fullResponse st)"
  shows "genId (absorb c st) = gen_of (fullResponse st @ c)"
proof (cases "gen_of (fullResponse st) = []")
  case True
  with assms show ?thesis
    by (auto simp: absorb_def Let_def gen_of_def split: option.splits)
next
  case False
  from gen_of_append [OF False, of c] False assms show ?thesis
    by (auto simp: absorb_def Let_def gen_of_def split: option.splits)
qed

lemma read_loop_extracts:
  assumes clock: "\<forall>i. clock i < timeout"
  shows "\<forall>r \<in> set reads. is_ReadValue r \<Longrightarrow> imageUrl st = url_of (fullResponse st)
           \<Longrightarrow> genId st = gen_of (fullResponse st)
           \<Longrightarrow> \<exists>st' tr. read_loop clock i st reads = (Some (Inr st'), tr)
                 \<and> imageUrl st' = url_of (fullResponse st @ stream_text reads)
                 \<and> genId st' = gen_of (fullResponse st @ stream_text reads)"
proof (induction reads arbitrary: i st)
  case Nil
  with clock show ?case by (simp add: stream_text_def)
next
  case (Cons r reads)
  from clock have ci: "clock i < timeout" by simp
  from Cons.prems(1) have vals: "\<forall>r \<in> set reads. is_ReadValue r" by simp
  from Cons.prems(1) obtain v where r: "r = ReadValue v" by (cases r) auto
  show ?case
  proof (cases v)
    case None
    from Cons.IH [OF vals Cons.prems(2) Cons.prems(3), of "Suc i"] ci r None
    show ?thesis by (auto simp: reading_def stream_text_def)
  next
    case (Some c)
    let ?st = "absorb c st"
    have u: "imageUrl ?st = url_of (fullResponse ?st)"
      using absorb_imageUrl [OF Cons.prems(2)] by (simp add: absorb_fullResponse)
    have g: "genId ?st = gen_of (fullResponse ?st)"
      using absorb_genId [OF Cons.prems(3)] by (simp add: absorb_fullResponse)
    have tx: "fullResponse st @ stream_text (r # reads) = fullResponse ?st @ stream_text reads"
      by (simp add: stream_text_def r Some absorb_fullResponse)
    show ?thesis
    proof (cases "imageUrl ?st \<noteq> [] \<and> genId ?st \<noteq> []")
      case True
      then have "url_of (fullResponse ?st @ stream_text reads) = imageUrl ?st"
        and "gen_of (fullResponse ?st @ stream_text reads) = genId ?st"
        using u g url_of_append gen_of_append by auto
      with True ci show ?thesis unfolding tx by (simp add: r Some)
    next
      case False
      from Cons.IH [OF vals u g, of "Suc i"] obtain st' tr where
        "read_loop clock (Suc i) ?st reads = (Some (Inr st'), tr)"
        "imageUrl st' = url_of (fullResponse ?st @ stream_text reads)"
        "genId st' = gen_of (fullResponse ?st @ stream_text reads)" by blast
      with False ci show ?thesis unfolding tx by (auto simp: r Some reading_def)
    qed
  qed
qed

lemma url_at_needs_open: "url_at s \<noteq> None \<Longrightarrow> prefix link_open s"
  by (auto simp: url_at_def link_open_def lit_eq split: if_splits)

lemma gen_at_needs_open: "gen_at s \<noteq> None \<Longrightarrow> prefix gen_open s"
  by (auto simp: gen_at_def gen_open_def lit_eq split: if_splits)

lemma search_url_skip:
  "\<not> sublist link_open pre
     \<Longrightarrow> search url_at (pre @ url_marker @ rest) = search url_at (url_marker @ rest)"
proof (induction pre)
  case Nil
  then show ?case by simp
next
  case (Cons c pre)
  from Cons.prems have np: "\<not> prefix link_open (c # pre)" and ns: "\<not> sublist link_open pre"
    by (auto simp: sublist_Cons_right)
  have "url_at (c # pre @ url_marker @ rest) = None"
  proof (rule ccontr)
    assume "url_at (c # pre @ url_marker @ rest) \<noteq> None"
    then have p: "prefix link_open (c # pre @ url_marker @ rest)" by (rule url_at_needs_open)
    show False
    proof (cases pre)
      case Nil
      with p show False by (simp add: link_open_def url_marker_def)
    next
      case (Cons d pre')
      with p np show False by (simp add: link_open_def)
    qed
  qed
  with Cons.IH [OF ns] show ?case by simp
qed

lemma gen_open_inner: "0 < j \<Longrightarrow> j < 9 \<Longrightarrow> gen_open ! j \<noteq> 0x67"
  by (auto simp: gen_open_def nth_Cons' )

lemma search_gen_skip:
  "\<not> sublist gen_open pre
     \<Longrightarrow> search gen_at (pre @ gen_marker @ rest) = search gen_at (gen_marker @ rest)"
proof (induction pre)
  case Nil
  then show ?case by simp
next
  case (Cons c pre)
  from Cons.prems have np: "\<not> prefix gen_open (c # pre)" and ns: "\<not> sublist gen_open pre"
    by (auto simp: sublist_Cons_right)
  have "gen_at (c # pre @ gen_marker @ rest) = None"
  proof (rule ccontr)
    assume "gen_at (c # pre @ gen_marker @ rest) \<noteq> None"
    then have "prefix gen_open ((c # pre) @ gen_marker @ rest)"
      using gen_at_needs_open by fastforce
    then obtain r where r: "(c # pre) @ gen_marker @ rest = gen_open @ r"
      by (auto simp: prefix_def)
    have len: "length gen_open = 9" by (simp add: gen_open_def)
    show False
    proof (cases "length (c # pre) < 9")
      case True
      obtain tl where gm: "gen_marker @ rest = 0x67 # tl" by (simp add: gen_marker_def)
      have "((c # pre) @ gen_marker @ rest) ! length (c # pre) = 0x67"
        unfolding gm by (rule nth_append_length)
      then have a: "(gen_open @ r) ! length (c # pre) = 0x67" unfolding r .
      have b: "(gen_open @ r) ! length (c # pre) = gen_open ! length (c # pre)"
        using True len by (simp add: nth_append)
      from a have "gen_open ! length (c # pre) = 0x67" unfolding b .
      with gen_open_inner [of "length (c # pre)"] True show False by simp
    next
      case False
      then have x: "take 9 ((c # pre) @ gen_marker @ rest) = take 9 (c # pre)" by simp
      have y: "take 9 (gen_open @ r) = gen_open" using len by simp
      from x have "take 9 (gen_open @ r) = take 9 (c # pre)" unfolding r .
      then have "take 9 (c # pre) = gen_open" unfolding y by (rule sym)
      then have "prefix gen_open (c # pre)" by (metis take_is_prefix)
      with np show False by simp
    qed
  qed
  with Cons.IH [OF ns] show ?case by simp
qed

lemma url_at_marker:
  "url_at (url_marker @ rest) = Some (asc ''x'', asc ''host/img.png'', ())"
  by (simp add: url_at_def url_marker_def accept_def is_line_terminator_def)

lemma match_url_marker:
  assumes "\<not> sublist link_open pre"
  shows "match_url (pre @ url_marker @ rest) = Some (asc ''https://host/img.png'')"
proof -
  have "search url_at (pre @ url_marker @ rest) = search url_at (url_marker @ rest)"
    using assms by (rule search_url_skip)
  also have "\<dots> = Some (asc ''x'', asc ''host/img.png'', ())"
    using url_at_marker [of rest] by (cases "url_marker @ rest") simp_all
  finally show ?thesis by (simp add: match_url_def)
qed

lemma gen_at_marker: "gen_at (gen_marker @ rest) = Some (asc ''abc123'', ())"
  by (simp add: gen_at_def gen_marker_def accept_def is_line_terminator_def)

lemma match_gen_marker:
  assumes "\<not> sublist gen_open pre"
  shows "match_gen (pre @ gen_marker @ rest) = Some (asc ''abc123'')"
proof -
  have "search gen_at (pre @ gen_marker @ rest) = search gen_at (gen_marker @ rest)"
    using assms by (rule search_gen_skip)
  also have "\<dots> = Some (asc ''abc123'', ())"
    using gen_at_marker [of rest] by (cases "gen_marker @ rest") simp_all
  finally show ?thesis by (simp add: match_gen_def)
qed

lemma init_stream_inv:
  "imageUrl init_stream = url_of (fullResponse init_stream)"
  "genId init_stream = gen_of (fullResponse init_stream)"
  by (simp_all add: init_stream_def url_of_def gen_of_def match_url_def match_gen_def
      url_at_def gen_at_def)

lemma read_loop_from_start:
  assumes "\<forall>i. clock i < timeout" and "\<forall>r \<in> set reads. is_ReadValue r"
  shows "\<exists>st tr. read_loop clock 0 init_stream reads = (Some (Inr st), tr)
           \<and> imageUrl st = url_of (stream_text reads) \<and> genId st = gen_of (stream_text reads)"
  using read_loop_extracts [OF assms(1) assms(2) init_stream_inv, of 0]
  by (simp add: init_stream_def)




subsection \<open>Effects and outcomes of a run\<close>

lemma read_loop_effects: "\<exists>n. snd (read_loop clock i st reads) = replicate n ReaderRead"
proof (induction clock i st reads rule: read_loop.induct)
  case (1 clock i st)
  show ?case by (cases "clock i < timeout") (auto intro: exI [of _ "Suc 0"] exI [of _ 0])
next
  case (2 clock i st rest)
  show ?case by (cases "clock i < timeout") (auto intro: exI [of _ "Suc 0"] exI [of _ 0])
next
  case (3 clock i st e rest)
  show ?case by (cases "clock i < timeout") (auto intro: exI [of _ "Suc 0"] exI [of _ 0])
next
  case (4 clock i st rest)
  show ?case
  proof (cases "clock i < timeout")
    case True
    with 4 obtain n where "snd (read_loop clock (Suc i) st rest) = replicate n ReaderRead" by blast
    with True show ?thesis by (auto simp: reading_def intro: exI [of _ "Suc n"])
  next
    case False
    then show ?thesis by (auto intro: exI [of _ 0])
  qed
next
  case (5 clock i st chunk rest)
  show ?case
  proof (cases "clock i < timeout")
    case True
    show ?thesis
    proof (cases "imageUrl (absorb chunk st) \<noteq> [] \<and> genId (absorb chunk st) \<noteq> []")
      case both: True
      with True show ?thesis by (auto intro: exI [of _ "Suc 0"])
    next
      case False
      with True 5 obtain n where
        "snd (read_loop clock (Suc i) (absorb chunk st) rest) = replicate n ReaderRead" by blast
      with True False show ?thesis by (auto simp: reading_def intro: exI [of _ "Suc n"])
    qed
  next
    case False
    then show ?thesis by (auto intro: exI [of _ 0])
  qed
qed

lemma events_reads: "events (replicate n ReaderRead) = []"
  by (induction n) simp_all

lemma events_append: "events (a @ b) = events a @ events b"
  by (induction a rule: events.induct) simp_all

lemma read_loop_events: "events (snd (read_loop clock i st reads)) = []"
  using read_loop_effects [of clock i st reads] by (auto simp: events_reads)

lemma read_loop_no_fetch: "filter is_Fetch (snd (read_loop clock i st reads)) = []"
  using read_loop_effects [of clock i st reads] by auto

lemma read_loop_no_error_event: "filter is_ErrorEvent (snd (read_loop clock i st reads)) = []"
  using read_loop_effects [of clock i st reads] by auto

lemma read_loop_only_reads:
  assumes "read_loop clock i st reads = (r, tr)"
  shows "filter is_ErrorEvent tr = [] \<and> filter is_Fetch tr = [] \<and> events tr = []"
  using read_loop_no_error_event [of clock i st reads] read_loop_no_fetch [of clock i st reads]
    read_loop_events [of clock i st reads] assms by simp

lemma generateImage_try_no_error_event:
  "filter is_ErrorEvent (snd (generateImage_try env query gid url key ratio model)) = []"
  by (auto simp: generateImage_try_def request_effects_def Let_def
      dest: read_loop_only_reads split: sum.splits option.splits prod.splits)

lemma generateImage_try_one_fetch:
  "length (filter is_Fetch (snd (generateImage_try env query gid url key ratio model))) = 1"
  by (auto simp: generateImage_try_def request_effects_def Let_def
      dest: read_loop_only_reads split: sum.splits option.splits prod.splits)

lemma generateImage_guarded:
  assumes "gs_query state = Some query" and "query \<noteq> []" and "apiKey_of cfg \<noteq> []"
  shows "generateImage env state cfg =
           (case run_try env state cfg query of
              (None, t) \<Rightarrow> (None, SetMetadataStep (asc ''generateImage'') # t)
            | (Some (Inr msgs), t) \<Rightarrow>
                (Some (Inr msgs), SetMetadataStep (asc ''generateImage'') # t)
            | (Some (Inl e), t) \<Rightarrow>
                (Some (Inr [fallback_message e]),
                 SetMetadataStep (asc ''generateImage'') # t @ [EmitEvent (ErrorEvent (error_text e))]))"
  using assms by (simp add: generateImage_def run_try_def)

lemma generateImage_caught:
  assumes "gs_query state = Some query" and "query \<noteq> []" and "apiKey_of cfg \<noteq> []"
    and "fst (run_try env state cfg query) = Some (Inl e)"
  shows "generateImage env state cfg =
           (Some (Inr [fallback_message e]),
            SetMetadataStep (asc ''generateImage'') # snd (run_try env state cfg query)
              @ [EmitEvent (ErrorEvent (error_text e))])"
  using assms(4) unfolding generateImage_guarded [OF assms(1-3)]
  by (cases "run_try env state cfg query") auto

lemma run_try_stream:
  assumes "fetch env (state_request state cfg query) = Inr resp" and "resp_ok resp"
    and "resp_body resp = Some reads"
  shows "run_try env state cfg query =
           (case read_loop (elapsed env) 0 init_stream reads of
              (None, tr) \<Rightarrow> (None, request_effects query (gen_id state) (apiUrl_of cfg)
                                  (apiKey_of cfg) (ratio_of cfg) (model_of cfg) @ tr)
            | (Some (Inl e), tr) \<Rightarrow>
                (Some (Inl e), request_effects query (gen_id state) (apiUrl_of cfg)
                                  (apiKey_of cfg) (ratio_of cfg) (model_of cfg) @ tr)
            | (Some (Inr st), tr) \<Rightarrow>
                if imageUrl st = []
                then (Some (Inl (Error msg_no_image_url)),
                      request_effects query (gen_id state) (apiUrl_of cfg)
                        (apiKey_of cfg) (ratio_of cfg) (model_of cfg) @ tr)
                else
                  (Some (Inr [if aiMessageThrows env
                              then systemMessage query (imageUrl st) (genId st)
                              else aiMessage query (imageUrl st) (genId st)]),
                   request_effects query (gen_id state) (apiUrl_of cfg)
                        (apiKey_of cfg) (ratio_of cfg) (model_of cfg) @ tr @
                   [EmitEvent (ArtifactEvent
                      (mk_artifact env query (imageUrl st) (genId st) (model_of cfg) (ratio_of cfg))),
                    EmitEvent (CreateNodeEvent
                      (mk_canvasNode env query (imageUrl st) (genId st) (model_of cfg) (ratio_of cfg)))]))"
  using assms by (simp add: run_try_def generateImage_try_def state_request_def Let_def)

lemma msg_no_image_url_nonempty: "error_text (Error msg_no_image_url) = msg_no_image_url"
  by (simp add: error_text_def msg_no_image_url_def)

lemma run_without_url:
  assumes q: "gs_query state = Some query" "query \<noteq> []" and key: "apiKey_of cfg \<noteq> []"
    and f: "fetch env (state_request state cfg query) = Inr resp" "resp_ok resp"
      "resp_body resp = Some reads"
    and l: "read_loop (elapsed env) 0 init_stream reads = (Some (Inr st), tr)" and u: "imageUrl st = []"
  shows "generateImage env state cfg =
           (Some (Inr [fallback_message (Error msg_no_image_url)]),
            started state cfg query @ tr @ [EmitEvent (ErrorEvent msg_no_image_url)])"
proof -
  have "run_try env state cfg query =
          (Some (Inl (Error msg_no_image_url)),
           request_effects query (gen_id state) (apiUrl_of cfg) (apiKey_of cfg) (ratio_of cfg)
             (model_of cfg) @ tr)"
    unfolding run_try_stream [OF f] using l u by simp
  then show ?thesis
    unfolding generateImage_guarded [OF q key]
    by (simp add: started_def msg_no_image_url_nonempty)
qed

lemma run_with_url:
  assumes q: "gs_query state = Some query" "query \<noteq> []" and key: "apiKey_of cfg \<noteq> []"
    and f: "fetch env (state_request state cfg query) = Inr resp" "resp_ok resp"
      "resp_body resp = Some reads"
    and l: "read_loop (elapsed env) 0 init_stream reads = (Some (Inr st), tr)" and u: "imageUrl st \<noteq> []"
  shows "generateImage env state cfg =
           (Some (Inr [if aiMessageThrows env
                 then systemMessage query (imageUrl st) (genId st)
                 else aiMessage query (imageUrl st) (genId st)]),
            started state cfg query @ tr @
            [EmitEvent (ArtifactEvent
               (mk_artifact env query (imageUrl st) (genId st) (model_of cfg) (ratio_of cfg))),
             EmitEvent (CreateNodeEvent
               (mk_canvasNode env query (imageUrl st) (genId st) (model_of cfg) (ratio_of cfg)))])"
  unfolding generateImage_guarded [OF q key] run_try_stream [OF f] using l u
  by (simp add: started_def)

lemma events_started:
  "events (started state cfg query) =
     [LogEvent (asc ''image.generating'') [(asc ''prompt'', query)],
      LogEvent (asc ''image.api.request'') [(asc ''url'', apiUrl_of cfg)]]"
  by (simp add: started_def request_effects_def)

subsection \<open>The claims about the image generation skill\<close>

text \<open>
  C6, as amended. When no read rejects or stalls and the timeout does not elapse, what the
  loop extracts depends on the text of the stream only, not on how it is cut into chunks: it
  is the pair of \<open>url_of\<close> and \<open>gen_of\<close> of the whole text, the first match of each pattern. For
  a text in which the image marker is the first image link (no \<open>![\<close> before it) and the
  generation-id marker the first one (no \<open>gen_id: \<close> with a backquote before it), the pair is
  the URL of the marker and \<open>abc123\<close>. A text that holds both markers after an earlier image
  link yields the URL of the earlier link.
\<close>

theorem read_loop_chunking:
  assumes clock: "\<forall>i. clock i < timeout" and vals: "\<forall>r \<in> set reads. is_ReadValue r"
  shows "extracted (read_loop clock 0 init_stream reads)
           = Some (url_of (stream_text reads), gen_of (stream_text reads))
       \<and> (\<forall>pre rest pre' rest'.
            stream_text reads = pre @ url_marker @ rest \<and> \<not> sublist link_open pre
            \<and> stream_text reads = pre' @ gen_marker @ rest' \<and> \<not> sublist gen_open pre'
            \<longrightarrow> extracted (read_loop clock 0 init_stream reads)
                  = Some (asc ''https://host/img.png'', asc ''abc123''))"
proof -
  from read_loop_from_start [OF clock vals]
  have ex: "extracted (read_loop clock 0 init_stream reads)
              = Some (url_of (stream_text reads), gen_of (stream_text reads))"
    by (auto simp: extracted_def)
  have "url_of (stream_text reads) = asc ''https://host/img.png''
        \<and> gen_of (stream_text reads) = asc ''abc123''"
    if "stream_text reads = pre @ url_marker @ rest" "\<not> sublist link_open pre"
      "stream_text reads = pre' @ gen_marker @ rest'" "\<not> sublist gen_open pre'"
    for pre rest pre' rest'
    using match_url_marker [OF that(2), of rest] match_gen_marker [OF that(4), of rest'] that(1,3)
    by (simp add: url_of_def gen_of_def)
  with ex show ?thesis by auto
qed

lemma stream_text_chunks: "stream_text (chunk_reads cs) = concat cs"
  by (induction cs) (simp_all add: stream_text_def chunk_reads_def)

lemma concat_split_chunks:
  "concat split_chunks = asc ''Done! '' @ url_marker @ asc '' '' @ gen_marker"
  by (simp add: split_chunks_def url_marker_def gen_marker_def)

lemma stream_text_whole: "stream_text whole_stream = url_marker @ asc '' '' @ gen_marker"
  by (simp add: stream_text_def whole_stream_def)

lemma no_link_before: "\<not> sublist link_open (asc ''Done! '')" "\<not> sublist link_open []"
  by (simp_all add: link_open_def sublist_Cons_right)

lemma no_gen_before:
  "\<not> sublist gen_open (asc ''Done! '' @ url_marker @ asc '' '')"
  "\<not> sublist gen_open (url_marker @ asc '' '')"
  "\<not> sublist gen_open (asc ''![a](https://o/a.png) '' @ url_marker @ asc '' '')"
  "\<not> sublist gen_open []"
  by (simp_all add: gen_open_def url_marker_def sublist_Cons_right)

theorem read_loop_chunking_witness:
  "(\<forall>i. (\<lambda>i. 0) i < timeout) \<and> list_all is_ReadValue done_stream
   \<and> stream_text done_stream = asc ''Done! '' @ url_marker @ asc '' '' @ gen_marker
   \<and> extracted (read_loop (\<lambda>i. 0) 0 init_stream done_stream)
       = Some (asc ''https://host/img.png'', asc ''abc123'')
   \<and> extracted (read_loop (\<lambda>i. 0) 0 init_stream
         [ReadValue (Some (asc ''Done! '' @ url_marker @ asc '' '' @ gen_marker))])
       = extracted (read_loop (\<lambda>i. 0) 0 init_stream done_stream)"
proof -
  let ?one = "[ReadValue (Some (asc ''Done! '' @ url_marker @ asc '' '' @ gen_marker))]"
  have c: "\<forall>i. (\<lambda>i. 0) i < timeout" by (simp add: timeout_def)
  have v: "\<forall>r \<in> set done_stream. is_ReadValue r"
    by (simp add: done_stream_def chunk_reads_def)
  have w: "\<forall>r \<in> set ?one. is_ReadValue r" by simp
  have tx: "stream_text done_stream = asc ''Done! '' @ url_marker @ asc '' '' @ gen_marker"
    by (simp add: done_stream_def stream_text_chunks concat_split_chunks)
  have t1: "stream_text done_stream = asc ''Done! '' @ url_marker @ (asc '' '' @ gen_marker)"
    by (simp add: tx)
  have t2: "stream_text done_stream = (asc ''Done! '' @ url_marker @ asc '' '') @ gen_marker @ []"
    by (simp add: tx)
  from read_loop_chunking [OF c v] t1 t2 no_link_before(1) no_gen_before(1)
  have a: "extracted (read_loop (\<lambda>i. 0) 0 init_stream done_stream)
          = Some (asc ''https://host/img.png'', asc ''abc123'')"
    by blast
  have "stream_text ?one = stream_text done_stream"
    by (simp add: tx) (simp add: stream_text_def)
  with read_loop_chunking [OF c v] read_loop_chunking [OF c w]
  have b: "extracted (read_loop (\<lambda>i. 0) 0 init_stream ?one)
          = extracted (read_loop (\<lambda>i. 0) 0 init_stream done_stream)"
    by simp
  from a b c v tx show ?thesis by (simp add: list_all_iff)
qed

theorem read_loop_earlier_link_counterexample:
  "stream_text earlier_link_stream
     = asc ''![a](https://o/a.png) '' @ url_marker @ asc '' '' @ gen_marker
   \<and> extracted (read_loop (\<lambda>i. 0) 0 init_stream earlier_link_stream)
       = Some (asc ''https://o/a.png'', asc ''abc123'')
   \<and> extracted (read_loop (\<lambda>i. 0) 0 init_stream earlier_link_stream)
       \<noteq> Some (asc ''https://host/img.png'', asc ''abc123'')"
proof -
  have c: "\<forall>i. (\<lambda>i. 0) i < timeout" by (simp add: timeout_def)
  have v: "\<forall>r \<in> set earlier_link_stream. is_ReadValue r"
    by (simp add: earlier_link_stream_def)
  have tx: "stream_text earlier_link_stream
     = asc ''![a](https://o/a.png) '' @ url_marker @ asc '' '' @ gen_marker"
    by (simp add: stream_text_def earlier_link_stream_def)
  have u: "url_of (stream_text earlier_link_stream) = asc ''https://o/a.png''"
    unfolding tx
    by (simp add: url_of_def match_url_def url_at_def accept_def is_line_terminator_def)
  have "match_gen ((asc ''![a](https://o/a.png) '' @ url_marker @ asc '' '') @ gen_marker @ [])
          = Some (asc ''abc123'')"
    using no_gen_before(3) by (rule match_gen_marker)
  then have g: "gen_of (stream_text earlier_link_stream) = asc ''abc123''"
    unfolding tx by (simp add: gen_of_def)
  from read_loop_from_start [OF c v] u g
  have "extracted (read_loop (\<lambda>i. 0) 0 init_stream earlier_link_stream)
       = Some (asc ''https://o/a.png'', asc ''abc123'')"
    by (auto simp: extracted_def)
  with tx show ?thesis by simp
qed




lemma example_run_reaches_stream:
  "gs_query (example_image_state (Some (asc ''cat''))) = Some (asc ''cat'')"
  "asc ''cat'' \<noteq> []"
  "apiKey_of (example_tpl (Some (asc ''key''))) \<noteq> []"
  "fetch (example_image_env (streaming body) clock) r = Inr (streaming body)"
  "resp_ok (streaming body)"
  "resp_body (streaming body) = Some body"
  "elapsed (example_image_env (streaming body) clock) = clock"
  "aiMessageThrows (example_image_env (streaming body) clock) = False"
  by (simp_all add: example_image_state_def example_tpl_def apiKey_of_def example_image_env_def
      streaming_def)

lemma absorb_gen_marker:
  "imageUrl (absorb gen_marker init_stream) = [] \<and> genId (absorb gen_marker init_stream) = asc ''abc123''"
proof -
  have "match_url gen_marker = None"
    by (simp add: match_url_def url_at_def gen_marker_def)
  moreover have "match_gen gen_marker = Some (asc ''abc123'')"
    using match_gen_marker [OF no_gen_before(4), of "[]"] by simp
  ultimately show ?thesis by (simp add: absorb_def init_stream_def)
qed






lemma messages_distinct:
  "distinct [msg_prompt_required, msg_api_key_required, msg_http_failure status errorText,
             msg_unreadable_stream, msg_no_image_url]"
  by (simp add: msg_prompt_required_def msg_api_key_required_def msg_http_failure_def
      msg_unreadable_stream_def msg_no_image_url_def)

lemma error_text_own:
  "error_text (Error (msg_http_failure status errorText)) = msg_http_failure status errorText"
  "error_text (Error msg_unreadable_stream) = msg_unreadable_stream"
  "error_text (Error msg_no_image_url) = msg_no_image_url"
  by (simp_all add: error_text_def msg_http_failure_def msg_unreadable_stream_def
      msg_no_image_url_def)

lemma generateImage_at_most_one_fetch:
  "length (filter is_Fetch (snd (generateImage env state cfg))) \<le> 1"
proof (cases "\<exists>query. gs_query state = Some query \<and> query \<noteq> [] \<and> apiKey_of cfg \<noteq> []")
  case True
  then obtain query where q: "gs_query state = Some query" "query \<noteq> []" "apiKey_of cfg \<noteq> []"
    by blast
  obtain r t where rt: "run_try env state cfg query = (r, t)"
    by (cases "run_try env state cfg query")
  from generateImage_try_one_fetch [of env query "gen_id state" "apiUrl_of cfg" "apiKey_of cfg"
      "ratio_of cfg" "model_of cfg"] rt
  have "length (filter is_Fetch t) = 1" by (simp add: run_try_def)
  then show ?thesis
    unfolding generateImage_guarded [OF q] rt by (auto split: option.splits sum.splits)
next
  case False
  then show ?thesis
    by (auto simp: generateImage_def split: option.splits)
qed

text \<open>
  C8, as amended. The five failure conditions have pairwise distinct messages, and no run
  sends more than one request. A missing prompt and a missing API key throw out of
  \<open>generateImage\<close> and emit nothing. Whatever the guarded block throws, in particular a
  non-success status, a missing response body and a stream without URL, is emitted as
  exactly one error event, and the fallback message is returned.
\<close>

theorem generateImage_failures:
  "distinct [msg_prompt_required, msg_api_key_required, msg_http_failure status errorText,
             msg_unreadable_stream, msg_no_image_url]
   \<and> length (filter is_Fetch (snd (generateImage env state cfg))) \<le> 1
   \<and> (gs_query state = None \<or> gs_query state = Some []
        \<longrightarrow> generateImage env state cfg = (Some (Inl (Error msg_prompt_required)), []))
   \<and> (gs_query state = Some query \<and> query \<noteq> [] \<and> apiKey_of cfg = []
        \<longrightarrow> generateImage env state cfg = (Some (Inl (Error msg_api_key_required)), []))
   \<and> (gs_query state = Some query \<and> query \<noteq> [] \<and> apiKey_of cfg \<noteq> []
        \<and> fst (run_try env state cfg query) = Some (Inl e)
        \<longrightarrow> fst (generateImage env state cfg) = Some (Inr [fallback_message e])
            \<and> filter is_ErrorEvent (snd (generateImage env state cfg))
                = [EmitEvent (ErrorEvent (error_text e))])
   \<and> (fetch env (state_request state cfg query) = Inr resp \<and> \<not> resp_ok resp
        \<and> resp_text resp = Inr errorText
        \<longrightarrow> fst (run_try env state cfg query)
              = Some (Inl (Error (msg_http_failure (resp_status resp) errorText)))
            \<and> error_text (Error (msg_http_failure (resp_status resp) errorText))
              = msg_http_failure (resp_status resp) errorText)
   \<and> (fetch env (state_request state cfg query) = Inr resp \<and> resp_ok resp
        \<and> resp_body resp = None
        \<longrightarrow> fst (run_try env state cfg query) = Some (Inl (Error msg_unreadable_stream))
            \<and> error_text (Error msg_unreadable_stream) = msg_unreadable_stream)
   \<and> (fetch env (state_request state cfg query) = Inr resp \<and> resp_ok resp
        \<and> resp_body resp = Some body
        \<and> fst (read_loop (elapsed env) 0 init_stream body) = Some (Inr st) \<and> imageUrl st = []
        \<longrightarrow> fst (run_try env state cfg query) = Some (Inl (Error msg_no_image_url))
            \<and> error_text (Error msg_no_image_url) = msg_no_image_url)"
proof (intro conjI impI)
  show "distinct [msg_prompt_required, msg_api_key_required, msg_http_failure status errorText,
             msg_unreadable_stream, msg_no_image_url]"
    by (rule messages_distinct)
  show "length (filter is_Fetch (snd (generateImage env state cfg))) \<le> 1"
    by (rule generateImage_at_most_one_fetch)
  show "generateImage env state cfg = (Some (Inl (Error msg_prompt_required)), [])"
    if "gs_query state = None \<or> gs_query state = Some []"
    using that by (auto simp: generateImage_def)
  show "generateImage env state cfg = (Some (Inl (Error msg_api_key_required)), [])"
    if "gs_query state = Some query \<and> query \<noteq> [] \<and> apiKey_of cfg = []"
    using that by (simp add: generateImage_def)
next
  assume a: "gs_query state = Some query \<and> query \<noteq> [] \<and> apiKey_of cfg \<noteq> []
        \<and> fst (run_try env state cfg query) = Some (Inl e)"
  then have g: "generateImage env state cfg =
           (Some (Inr [fallback_message e]),
            SetMetadataStep (asc ''generateImage'') # snd (run_try env state cfg query)
              @ [EmitEvent (ErrorEvent (error_text e))])"
    using generateImage_caught [of state query cfg env e] by simp
  then show "fst (generateImage env state cfg) = Some (Inr [fallback_message e])" by simp
  from g generateImage_try_no_error_event [of env query "gen_id state" "apiUrl_of cfg"
      "apiKey_of cfg" "ratio_of cfg" "model_of cfg"]
  show "filter is_ErrorEvent (snd (generateImage env state cfg))
                = [EmitEvent (ErrorEvent (error_text e))]"
    by (simp add: run_try_def)
next
  assume "fetch env (state_request state cfg query) = Inr resp \<and> \<not> resp_ok resp
        \<and> resp_text resp = Inr errorText"
  then show "fst (run_try env state cfg query)
              = Some (Inl (Error (msg_http_failure (resp_status resp) errorText)))"
    by (simp add: run_try_def generateImage_try_def state_request_def Let_def)
  show "error_text (Error (msg_http_failure (resp_status resp) errorText))
              = msg_http_failure (resp_status resp) errorText"
    by (rule error_text_own)
next
  assume "fetch env (state_request state cfg query) = Inr resp \<and> resp_ok resp
        \<and> resp_body resp = None"
  then show "fst (run_try env state cfg query) = Some (Inl (Error msg_unreadable_stream))"
    by (simp add: run_try_def generateImage_try_def state_request_def Let_def)
  show "error_text (Error msg_unreadable_stream) = msg_unreadable_stream"
    by (rule error_text_own)
next
  assume a: "fetch env (state_request state cfg query) = Inr resp \<and> resp_ok resp
        \<and> resp_body resp = Some body
        \<and> fst (read_loop (elapsed env) 0 init_stream body) = Some (Inr st) \<and> imageUrl st = []"
  then have f: "fetch env (state_request state cfg query) = Inr resp" "resp_ok resp"
    "resp_body resp = Some body" by simp_all
  from a show "fst (run_try env state cfg query) = Some (Inl (Error msg_no_image_url))"
    unfolding run_try_stream [OF f]
    by (cases "read_loop (elapsed env) 0 init_stream body") simp
  show "error_text (Error msg_no_image_url) = msg_no_image_url"
    by (rule error_text_own)
qed

theorem generateImage_missing_prompt_counterexample:
  "gs_query (example_image_state None) = None
   \<and> generateImage (example_image_env (streaming whole_stream) (\<lambda>i. 0)) (example_image_state None)
        (example_tpl (Some (asc ''key''))) = (Some (Inl (Error msg_prompt_required)), [])
   \<and> \<not> (length (filter is_ErrorEvent (snd (generateImage
             (example_image_env (streaming whole_stream) (\<lambda>i. 0)) (example_image_state None)
             (example_tpl (Some (asc ''key'')))))) = 1
        \<and> (\<exists>m. fst (generateImage
             (example_image_env (streaming whole_stream) (\<lambda>i. 0)) (example_image_state None)
             (example_tpl (Some (asc ''key'')))) = Some (Inr [m])))"
  by (simp add: generateImage_def example_image_state_def)

theorem generateImage_failures_witness:
  "generateImage (example_image_env (streaming whole_stream) (\<lambda>i. 0)) (example_image_state None)
       (example_tpl (Some (asc ''key''))) = (Some (Inl (Error msg_prompt_required)), [])
   \<and> generateImage (example_image_env (streaming whole_stream) (\<lambda>i. 0))
       (example_image_state (Some (asc ''cat''))) (example_tpl None)
       = (Some (Inl (Error msg_api_key_required)), [])
   \<and> fst (generateImage (example_image_env failed_response (\<lambda>i. 0))
       (example_image_state (Some (asc ''cat''))) (example_tpl (Some (asc ''key''))))
       = Some (Inr [fallback_message (Error (msg_http_failure 500 (asc ''boom'')))])
   \<and> filter is_ErrorEvent (snd (generateImage (example_image_env failed_response (\<lambda>i. 0))
       (example_image_state (Some (asc ''cat''))) (example_tpl (Some (asc ''key'')))))
       = [EmitEvent (ErrorEvent (msg_http_failure 500 (asc ''boom'')))]
   \<and> fst (generateImage (example_image_env bodyless_response (\<lambda>i. 0))
       (example_image_state (Some (asc ''cat''))) (example_tpl (Some (asc ''key''))))
       = Some (Inr [fallback_message (Error msg_unreadable_stream)])
   \<and> fst (generateImage (example_image_env (streaming gen_then_url) late_clock)
       (example_image_state (Some (asc ''cat''))) (example_tpl (Some (asc ''key''))))
       = Some (Inr [fallback_message (Error msg_no_image_url)])"
proof -
  let ?state = "example_image_state (Some (asc ''cat''))"
  let ?cfg = "example_tpl (Some (asc ''key''))"
  let ?ok = "example_image_env (streaming whole_stream) (\<lambda>i. 0)"
  let ?bad = "example_image_env failed_response (\<lambda>i. 0)"
  let ?nobody = "example_image_env bodyless_response (\<lambda>i. 0)"
  let ?nourl = "example_image_env (streaming gen_then_url) late_clock"
  have q: "gs_query ?state = Some (asc ''cat'')" "asc ''cat'' \<noteq> []" "apiKey_of ?cfg \<noteq> []"
    by (simp_all add: example_image_state_def example_tpl_def apiKey_of_def)
  have c1: "generateImage ?ok (example_image_state None) ?cfg = (Some (Inl (Error msg_prompt_required)), [])"
    using generateImage_failures [where state = "example_image_state None" and env = ?ok
        and cfg = ?cfg]
    by (simp add: example_image_state_def)
  have c2: "generateImage ?ok ?state (example_tpl None) = (Some (Inl (Error msg_api_key_required)), [])"
    using generateImage_failures [where state = ?state and env = ?ok and query = "asc ''cat''"
        and cfg = "example_tpl None"] q(1,2)
    by (simp add: example_tpl_def apiKey_of_def)
  have t3: "fst (run_try ?bad ?state ?cfg (asc ''cat''))
              = Some (Inl (Error (msg_http_failure 500 (asc ''boom''))))"
    using generateImage_failures [where state = ?state and env = ?bad and query = "asc ''cat''"
        and cfg = ?cfg and resp = failed_response and errorText = "asc ''boom''"]
    by (simp add: example_image_env_def failed_response_def)
  have c3: "fst (generateImage ?bad ?state ?cfg)
              = Some (Inr [fallback_message (Error (msg_http_failure 500 (asc ''boom'')))])
            \<and> filter is_ErrorEvent (snd (generateImage ?bad ?state ?cfg))
              = [EmitEvent (ErrorEvent (msg_http_failure 500 (asc ''boom'')))]"
    using generateImage_failures [where state = ?state and env = ?bad and query = "asc ''cat''"
        and cfg = ?cfg and e = "Error (msg_http_failure 500 (asc ''boom''))"] q t3
      error_text_own(1) [of 500 "asc ''boom''"]
    by simp
  have t4: "fst (run_try ?nobody ?state ?cfg (asc ''cat'')) = Some (Inl (Error msg_unreadable_stream))"
    using generateImage_failures [where state = ?state and env = ?nobody and query = "asc ''cat''"
        and cfg = ?cfg and resp = bodyless_response]
    by (simp add: example_image_env_def bodyless_response_def)
  have c4: "fst (generateImage ?nobody ?state ?cfg) = Some (Inr [fallback_message (Error msg_unreadable_stream)])"
    using generateImage_failures [where state = ?state and env = ?nobody and query = "asc ''cat''"
        and cfg = ?cfg and e = "Error msg_unreadable_stream"] q t4
    by simp
  have l5: "fst (read_loop (elapsed ?nourl) 0 init_stream gen_then_url)
              = Some (Inr (absorb gen_marker init_stream))"
    using absorb_gen_marker
    by (simp add: example_image_env_def gen_then_url_def late_clock_def timeout_def reading_def)
  have t5: "fst (run_try ?nourl ?state ?cfg (asc ''cat'')) = Some (Inl (Error msg_no_image_url))"
    using generateImage_failures [where state = ?state and env = ?nourl and query = "asc ''cat''"
        and cfg = ?cfg and resp = "streaming gen_then_url" and body = gen_then_url
        and st = "absorb gen_marker init_stream"] l5 absorb_gen_marker
    by (simp add: example_image_env_def streaming_def)
  have c5: "fst (generateImage ?nourl ?state ?cfg) = Some (Inr [fallback_message (Error msg_no_image_url)])"
    using generateImage_failures [where state = ?state and env = ?nourl and query = "asc ''cat''"
        and cfg = ?cfg and e = "Error msg_no_image_url"] q t5
    by simp
  from c1 c2 c3 c4 c5 show ?thesis by blast
qed

text \<open>
  C9, as amended. A run that reaches the stream and leaves the loop with a URL returns one
  message carrying that URL (the assistant message, or the system message when the
  constructor of the assistant message throws), and its events are, in this order, the two
  log events emitted before the request, the artifact event and the event that creates the
  canvas node.
\<close>

theorem generateImage_success_events:
  assumes q: "gs_query state = Some query" "query \<noteq> []" and key: "apiKey_of cfg \<noteq> []"
    and f: "fetch env (state_request state cfg query) = Inr resp" "resp_ok resp"
      "resp_body resp = Some body"
    and l: "read_loop (elapsed env) 0 init_stream body = (Some (Inr st), tr)" and u: "imageUrl st \<noteq> []"
  shows "fst (generateImage env state cfg)
           = Some (Inr [if aiMessageThrows env then systemMessage query (imageUrl st) (genId st)
                  else aiMessage query (imageUrl st) (genId st)])
       \<and> events (snd (generateImage env state cfg))
           = [LogEvent (asc ''image.generating'') [(asc ''prompt'', query)],
              LogEvent (asc ''image.api.request'') [(asc ''url'', apiUrl_of cfg)],
              ArtifactEvent (mk_artifact env query (imageUrl st) (genId st) (model_of cfg) (ratio_of cfg)),
              CreateNodeEvent (mk_canvasNode env query (imageUrl st) (genId st) (model_of cfg) (ratio_of cfg))]
       \<and> (\<exists>t. aiMessage query (imageUrl st) (genId st)
                = AIMessage (Parts [ImageUrlPart (imageUrl st) (asc ''high''), TextPart t]) None)
       \<and> am_url (art_metadata (mk_artifact env query (imageUrl st) (genId st) (model_of cfg) (ratio_of cfg)))
           = imageUrl st
       \<and> nm_imageUrl (nd_metadata (cn_data
             (mk_canvasNode env query (imageUrl st) (genId st) (model_of cfg) (ratio_of cfg))))
           = imageUrl st"
proof -
  from read_loop_only_reads [OF l] have tr: "events tr = []" by simp
  show ?thesis
    unfolding run_with_url [OF q key f l u]
    by (simp add: events_append events_started tr aiMessage_def mk_artifact_def mk_canvasNode_def)
qed

lemma whole_stream_loop:
  "\<exists>st tr. read_loop (\<lambda>i. 0) 0 init_stream whole_stream = (Some (Inr st), tr)
     \<and> imageUrl st = asc ''https://host/img.png'' \<and> genId st = asc ''abc123''"
proof -
  have c: "\<forall>i. (\<lambda>i. 0) i < timeout" by (simp add: timeout_def)
  have w: "\<forall>r \<in> set whole_stream. is_ReadValue r" by (simp add: whole_stream_def)
  have "url_of (stream_text whole_stream) = asc ''https://host/img.png''"
    using match_url_marker [OF no_link_before(2), of "asc '' '' @ gen_marker"]
    by (simp add: stream_text_whole url_of_def)
  moreover have "gen_of (stream_text whole_stream) = asc ''abc123''"
    using match_gen_marker [OF no_gen_before(2), of "[]"]
    by (simp add: stream_text_whole gen_of_def)
  ultimately show ?thesis using read_loop_from_start [OF c w] by simp
qed

theorem generateImage_success_counterexample:
  "(\<exists>m. fst (generateImage (example_image_env (streaming whole_stream) (\<lambda>i. 0))
             (example_image_state (Some (asc ''cat''))) (example_tpl (Some (asc ''key''))))
         = Some (Inr [m]) \<and> is_AIMessage m)
   \<and> \<not> (\<exists>a n. events (snd (generateImage (example_image_env (streaming whole_stream) (\<lambda>i. 0))
             (example_image_state (Some (asc ''cat''))) (example_tpl (Some (asc ''key'')))))
         = [ArtifactEvent a, CreateNodeEvent n])
   \<and> hd (events (snd (generateImage (example_image_env (streaming whole_stream) (\<lambda>i. 0))
             (example_image_state (Some (asc ''cat''))) (example_tpl (Some (asc ''key''))))))
       = LogEvent (asc ''image.generating'') [(asc ''prompt'', asc ''cat'')]"
proof -
  let ?env = "example_image_env (streaming whole_stream) (\<lambda>i. 0)"
  let ?state = "example_image_state (Some (asc ''cat''))"
  let ?cfg = "example_tpl (Some (asc ''key''))"
  from whole_stream_loop obtain st tr where
    l: "read_loop (elapsed ?env) 0 init_stream whole_stream = (Some (Inr st), tr)"
    and u: "imageUrl st = asc ''https://host/img.png''"
    by (auto simp: example_run_reaches_stream)
  from u have u': "imageUrl st \<noteq> []" by simp
  from read_loop_only_reads [OF l] have tr: "events tr = []" by simp
  have g: "generateImage ?env ?state ?cfg =
           (Some (Inr [aiMessage (asc ''cat'') (imageUrl st) (genId st)]),
            started ?state ?cfg (asc ''cat'') @ tr @
            [EmitEvent (ArtifactEvent
               (mk_artifact ?env (asc ''cat'') (imageUrl st) (genId st) (model_of ?cfg) (ratio_of ?cfg))),
             EmitEvent (CreateNodeEvent
               (mk_canvasNode ?env (asc ''cat'') (imageUrl st) (genId st) (model_of ?cfg) (ratio_of ?cfg)))])"
    using run_with_url [OF example_run_reaches_stream(1-3)
        example_run_reaches_stream(4-6) l u']
    by (simp add: example_run_reaches_stream)
  show ?thesis
    unfolding g by (simp add: events_append events_started tr aiMessage_def)
qed

theorem generateImage_success_events_witness:
  "fst (generateImage (example_image_env (streaming whole_stream) (\<lambda>i. 0))
          (example_image_state (Some (asc ''cat''))) (example_tpl (Some (asc ''key''))))
     = Some (Inr [aiMessage (asc ''cat'') (asc ''https://host/img.png'') (asc ''abc123'')])
   \<and> events (snd (generateImage (example_image_env (streaming whole_stream) (\<lambda>i. 0))
          (example_image_state (Some (asc ''cat''))) (example_tpl (Some (asc ''key'')))))
     = [LogEvent (asc ''image.generating'') [(asc ''prompt'', asc ''cat'')],
        LogEvent (asc ''image.api.request'')
          [(asc ''url'', asc ''https://api.tu-zi.com/v1/chat/completions'')],
        ArtifactEvent (mk_artifact (example_image_env (streaming whole_stream) (\<lambda>i. 0))
          (asc ''cat'') (asc ''https://host/img.png'') (asc ''abc123'')
          (asc ''gpt-4o-image-vip'') (asc ''1:1'')),
        CreateNodeEvent (mk_canvasNode (example_image_env (streaming whole_stream) (\<lambda>i. 0))
          (asc ''cat'') (asc ''https://host/img.png'') (asc ''abc123'')
          (asc ''gpt-4o-image-vip'') (asc ''1:1''))]"
proof -
  let ?env = "example_image_env (streaming whole_stream) (\<lambda>i. 0)"
  let ?state = "example_image_state (Some (asc ''cat''))"
  let ?cfg = "example_tpl (Some (asc ''key''))"
  from whole_stream_loop obtain st tr where
    l: "read_loop (elapsed ?env) 0 init_stream whole_stream = (Some (Inr st), tr)"
    and u: "imageUrl st = asc ''https://host/img.png''" and g: "genId st = asc ''abc123''"
    by (auto simp: example_run_reaches_stream)
  from u have u': "imageUrl st \<noteq> []" by simp
  have cfg: "apiUrl_of ?cfg = asc ''https://api.tu-zi.com/v1/chat/completions''"
    "model_of ?cfg = asc ''gpt-4o-image-vip''" "ratio_of ?cfg = asc ''1:1''"
    by (simp_all add: example_tpl_def apiUrl_of_def model_of_def ratio_of_def)
  from generateImage_success_events [OF example_run_reaches_stream(1-3)
        example_run_reaches_stream(4-6) l u']
  show ?thesis
    unfolding u g cfg by (simp add: example_run_reaches_stream)
qed

text \<open>
  C10. For a stream whose reads all yield a value within the timeout: if its text has no
  image link, whether or not it has a generation id, the run fails with the URL-extraction
  error; if it has an image link and no generation id, the run succeeds and the string
  \<open>unknown\<close> stands for the generation id in the metadata of the artifact, in the metadata of
  the canvas node and in the returned message.
\<close>

theorem generateImage_url_required:
  assumes q: "gs_query state = Some query" "query \<noteq> []" and key: "apiKey_of cfg \<noteq> []"
    and f: "fetch env (state_request state cfg query) = Inr resp" "resp_ok resp"
      "resp_body resp = Some body"
    and clock: "\<forall>i. elapsed env i < timeout" and vals: "\<forall>r \<in> set body. is_ReadValue r"
  shows "(match_url (stream_text body) = None
           \<longrightarrow> fst (generateImage env state cfg) = Some (Inr [fallback_message (Error msg_no_image_url)])
               \<and> events (snd (generateImage env state cfg))
                   = [LogEvent (asc ''image.generating'') [(asc ''prompt'', query)],
                      LogEvent (asc ''image.api.request'') [(asc ''url'', apiUrl_of cfg)],
                      ErrorEvent msg_no_image_url])
       \<and> (\<forall>u. match_url (stream_text body) = Some u \<and> gen_of (stream_text body) = []
           \<longrightarrow> fst (generateImage env state cfg)
                 = Some (Inr [if aiMessageThrows env then systemMessage query u []
                        else aiMessage query u []])
               \<and> (\<exists>a n. events (snd (generateImage env state cfg))
                     = [LogEvent (asc ''image.generating'') [(asc ''prompt'', query)],
                        LogEvent (asc ''image.api.request'') [(asc ''url'', apiUrl_of cfg)],
                        ArtifactEvent a, CreateNodeEvent n]
                   \<and> am_url (art_metadata a) = u
                   \<and> am_gen_id (art_metadata a) = asc ''unknown''
                   \<and> nm_imageUrl (nd_metadata (cn_data n)) = u
                   \<and> nm_gen_id (nd_metadata (cn_data n)) = asc ''unknown'')
               \<and> aiMessage query u []
                   = AIMessage (Parts [ImageUrlPart u (asc ''high''),
                       TextPart ([0x0A, 0x0A] @ asc ''**'' @ [0x751F, 0x6210, 0x7684, 0x56FE, 0x50CF]
                         @ asc ''**'' @ [0x0A, 0x0A, 0x63D0, 0x793A, 0x8BCD] @ asc '': '' @ query
                         @ [0x0A, 0x0A, 0x56FE, 0x50CF] @ asc ''ID: unknown'')]) None
               \<and> systemMessage query u []
                   = SystemMessage (Text (asc ''!['' @ imageTitle query @ asc '']('' @ u @ asc '')''
                       @ [0x0A, 0x0A] @ [0x751F, 0x6210, 0x7684, 0x56FE, 0x50CF] @ asc ''ID: unknown''
                       @ [0x0A, 0x0A, 0x63D0, 0x793A, 0x8BCD] @ asc '': '' @ query)))"
proof -
  from read_loop_from_start [OF clock vals] obtain st tr where
    l: "read_loop (elapsed env) 0 init_stream body = (Some (Inr st), tr)"
    and u: "imageUrl st = url_of (stream_text body)" and g: "genId st = gen_of (stream_text body)"
    by blast
  from read_loop_only_reads [OF l] have tr: "events tr = []" by simp
  have none: "fst (generateImage env state cfg) = Some (Inr [fallback_message (Error msg_no_image_url)])
               \<and> events (snd (generateImage env state cfg))
                   = [LogEvent (asc ''image.generating'') [(asc ''prompt'', query)],
                      LogEvent (asc ''image.api.request'') [(asc ''url'', apiUrl_of cfg)],
                      ErrorEvent msg_no_image_url]"
    if "match_url (stream_text body) = None"
  proof -
    from that u have "imageUrl st = []" by (simp add: url_of_def)
    from run_without_url [OF q key f l this] show ?thesis
      by (simp add: events_append events_started tr)
  qed
  have some: "fst (generateImage env state cfg)
                 = Some (Inr [if aiMessageThrows env then systemMessage query v []
                        else aiMessage query v []])
               \<and> (\<exists>a n. events (snd (generateImage env state cfg))
                     = [LogEvent (asc ''image.generating'') [(asc ''prompt'', query)],
                        LogEvent (asc ''image.api.request'') [(asc ''url'', apiUrl_of cfg)],
                        ArtifactEvent a, CreateNodeEvent n]
                   \<and> am_url (art_metadata a) = v
                   \<and> am_gen_id (art_metadata a) = asc ''unknown''
                   \<and> nm_imageUrl (nd_metadata (cn_data n)) = v
                   \<and> nm_gen_id (nd_metadata (cn_data n)) = asc ''unknown'')"
    if "match_url (stream_text body) = Some v \<and> gen_of (stream_text body) = []" for v
  proof -
    from that u have uv: "imageUrl st = v" by (simp add: url_of_def)
    from that have "match_url (stream_text body) = Some v" by simp
    then have "v \<noteq> []" by (auto simp: match_url_def)
    with uv have ne: "imageUrl st \<noteq> []" by simp
    from that g have gv: "genId st = []" by simp
    from run_with_url [OF q key f l ne] show ?thesis
      unfolding uv gv
      by (simp add: events_append events_started tr mk_artifact_def mk_canvasNode_def
          or_unknown_def)
  qed
  have msgs: "aiMessage query v []
                   = AIMessage (Parts [ImageUrlPart v (asc ''high''),
                       TextPart ([0x0A, 0x0A] @ asc ''**'' @ [0x751F, 0x6210, 0x7684, 0x56FE, 0x50CF]
                         @ asc ''**'' @ [0x0A, 0x0A, 0x63D0, 0x793A, 0x8BCD] @ asc '': '' @ query
                         @ [0x0A, 0x0A, 0x56FE, 0x50CF] @ asc ''ID: unknown'')]) None
               \<and> systemMessage query v []
                   = SystemMessage (Text (asc ''!['' @ imageTitle query @ asc '']('' @ v @ asc '')''
                       @ [0x0A, 0x0A] @ [0x751F, 0x6210, 0x7684, 0x56FE, 0x50CF] @ asc ''ID: unknown''
                       @ [0x0A, 0x0A, 0x63D0, 0x793A, 0x8BCD] @ asc '': '' @ query))" for v
    by (simp add: aiMessage_def systemMessage_def or_unknown_def)
  from none some msgs show ?thesis by blast
qed

theorem generateImage_url_required_witness:
  "fst (generateImage (example_image_env (streaming [ReadValue (Some gen_marker)]) (\<lambda>i. 0))
          (example_image_state (Some (asc ''cat''))) (example_tpl (Some (asc ''key''))))
     = Some (Inr [fallback_message (Error msg_no_image_url)])
   \<and> fst (generateImage (example_image_env (streaming [ReadValue (Some url_marker)]) (\<lambda>i. 0))
          (example_image_state (Some (asc ''cat''))) (example_tpl (Some (asc ''key''))))
     = Some (Inr [aiMessage (asc ''cat'') (asc ''https://host/img.png'') []])
   \<and> (\<exists>a n. events (snd (generateImage
          (example_image_env (streaming [ReadValue (Some url_marker)]) (\<lambda>i. 0))
          (example_image_state (Some (asc ''cat''))) (example_tpl (Some (asc ''key'')))))
        = [LogEvent (asc ''image.generating'') [(asc ''prompt'', asc ''cat'')],
           LogEvent (asc ''image.api.request'')
             [(asc ''url'', asc ''https://api.tu-zi.com/v1/chat/completions'')],
           ArtifactEvent a, CreateNodeEvent n]
        \<and> am_gen_id (art_metadata a) = asc ''unknown''
        \<and> nm_gen_id (nd_metadata (cn_data n)) = asc ''unknown'')"
proof -
  let ?state = "example_image_state (Some (asc ''cat''))"
  let ?cfg = "example_tpl (Some (asc ''key''))"
  let ?g = "[ReadValue (Some gen_marker)]"
  let ?u = "[ReadValue (Some url_marker)]"
  have c: "\<forall>i. elapsed (example_image_env (streaming body) (\<lambda>i. 0)) i < timeout" for body
    by (simp add: example_run_reaches_stream timeout_def)
  have vg: "\<forall>r \<in> set ?g. is_ReadValue r" and vu: "\<forall>r \<in> set ?u. is_ReadValue r"
    by simp_all
  have g1: "match_url (stream_text ?g) = None"
    by (simp add: stream_text_def match_url_def url_at_def gen_marker_def)
  have u1: "match_url (stream_text ?u) = Some (asc ''https://host/img.png'')"
    using match_url_marker [OF no_link_before(2), of "[]"] by (simp add: stream_text_def)
  have u2: "gen_of (stream_text ?u) = []"
    by (simp add: stream_text_def gen_of_def match_gen_def gen_at_def url_marker_def)
  have cfg: "apiUrl_of ?cfg = asc ''https://api.tu-zi.com/v1/chat/completions''"
    by (simp add: example_tpl_def apiUrl_of_def)
  from generateImage_url_required [OF example_run_reaches_stream(1-3)
      example_run_reaches_stream(4-6) c vg] g1
  have a: "fst (generateImage (example_image_env (streaming ?g) (\<lambda>i. 0)) ?state ?cfg)
             = Some (Inr [fallback_message (Error msg_no_image_url)])"
    by blast
  from generateImage_url_required [OF example_run_reaches_stream(1-3)
      example_run_reaches_stream(4-6) c vu] u1 u2
  have b: "fst (generateImage (example_image_env (streaming ?u) (\<lambda>i. 0)) ?state ?cfg)
             = Some (Inr [aiMessage (asc ''cat'') (asc ''https://host/img.png'') []])
           \<and> (\<exists>a n. events (snd (generateImage (example_image_env (streaming ?u) (\<lambda>i. 0)) ?state ?cfg))
                = [LogEvent (asc ''image.generating'') [(asc ''prompt'', asc ''cat'')],
                   LogEvent (asc ''image.api.request'')
                     [(asc ''url'', asc ''https://api.tu-zi.com/v1/chat/completions'')],
                   ArtifactEvent a, CreateNodeEvent n]
                \<and> am_gen_id (art_metadata a) = asc ''unknown''
                \<and> nm_gen_id (nd_metadata (cn_data n)) = asc ''unknown'')"
    unfolding cfg by (simp add: example_run_reaches_stream) blast
  from a b show ?thesis by blast
qed

end
